theory Spec2Isabelle
  imports Complex_Main "HOL-Library.Char_ord" "HOL-Library.List_Lexorder" "HOL-Library.Multiset"
begin

section \<open>Python values and the built-ins the server uses\<close>

text \<open>
  The model follows \<^verbatim>\<open>src/backend/server.py\<close>. A Python \<^verbatim>\<open>str\<close> is a list of
  8-bit characters read as the code points below 256; the classification of characters
  (\<^verbatim>\<open>str.isspace\<close>, \<^verbatim>\<open>str.isdigit\<close>, \<^verbatim>\<open>str.lower\<close>) is the one Python has on that
  range. Code points from 256 on are outside the model.
\<close>

definition is_space :: "char \<Rightarrow> bool" where
  "is_space c =
     (let n = (of_char c :: nat)
      in (9 \<le> n \<and> n \<le> 13) \<or> (28 \<le> n \<and> n \<le> 32) \<or> n = 133 \<or> n = 160)"

definition is_digit :: "char \<Rightarrow> bool" where
  "is_digit c =
     (let n = (of_char c :: nat)
      in (48 \<le> n \<and> n \<le> 57) \<or> n = 178 \<or> n = 179 \<or> n = 185)"

definition char_lower :: "char \<Rightarrow> char" where
  "char_lower c =
     (let n = (of_char c :: nat)
      in if (65 \<le> n \<and> n \<le> 90) \<or> (192 \<le> n \<and> n \<le> 222 \<and> n \<noteq> 215)
         then char_of (n + 32) else c)"

definition lower :: "string \<Rightarrow> string" where
  "lower s = map char_lower s"

text \<open>\<^verbatim>\<open>str.isdigit(s)\<close>: every character is a digit and there is at least one.\<close>

definition isdigit :: "string \<Rightarrow> bool" where
  "isdigit s = (s \<noteq> [] \<and> list_all is_digit s)"

text \<open>\<^verbatim>\<open>s.strip()\<close>, \<^verbatim>\<open>s.startswith(p)\<close>, \<^verbatim>\<open>a in b\<close> and the slice \<^verbatim>\<open>s[a:-b]\<close>.\<close>

definition lstrip :: "string \<Rightarrow> string" where
  "lstrip s = dropWhile is_space s"

definition rstrip :: "string \<Rightarrow> string" where
  "rstrip s = rev (dropWhile is_space (rev s))"

definition strip :: "string \<Rightarrow> string" where
  "strip s = rstrip (lstrip s)"

fun startswith :: "string \<Rightarrow> string \<Rightarrow> bool" where
  "startswith s [] = True"
| "startswith [] (p # ps) = False"
| "startswith (c # cs) (p # ps) = (c = p \<and> startswith cs ps)"

fun str_in :: "string \<Rightarrow> string \<Rightarrow> bool" where
  "str_in a [] = (a = [])"
| "str_in a (c # cs) = (startswith (c # cs) a \<or> str_in a cs)"

definition slice_between :: "nat \<Rightarrow> nat \<Rightarrow> string \<Rightarrow> string" where
  "slice_between a b s = drop a (take (length s - b) s)"

text \<open>
  Comparison of two strings by \<^verbatim>\<open><\<close>: the first differing code point decides, and a
  proper prefix is smaller.
\<close>

fun str_lt :: "string \<Rightarrow> string \<Rightarrow> bool" where
  "str_lt [] [] = False"
| "str_lt [] (y # ys) = True"
| "str_lt (x # xs) [] = False"
| "str_lt (x # xs) (y # ys) =
     (if x = y then str_lt xs ys else (of_char x :: nat) < of_char y)"

text \<open>
  The values \<^verbatim>\<open>json.loads\<close> and \<^verbatim>\<open>response.json()\<close> produce. \<open>JNull\<close> is \<^verbatim>\<open>None\<close>; a
  \<^verbatim>\<open>dict\<close> is the list of its items in insertion order, looked up with \<open>map_of\<close>; a
  finite \<^verbatim>\<open>float\<close> is the rational it denotes (\<^verbatim>\<open>NaN\<close> and the infinities are outside
  the model).
\<close>

datatype json =
    JNull
  | JBool bool
  | JInt int
  | JFloat rat
  | JStr string
  | JList "json list"
  | JObj "(string \<times> json) list"

datatype exn = AttributeError | TypeError | JSONDecodeError | UnboundLocalError | OtherException

text \<open>Truth value testing (\<^verbatim>\<open>if x\<close>, \<^verbatim>\<open>not x\<close>, \<^verbatim>\<open>any\<close>).\<close>

fun truthy :: "json \<Rightarrow> bool" where
  "truthy JNull = False"
| "truthy (JBool b) = b"
| "truthy (JInt n) = (n \<noteq> 0)"
| "truthy (JFloat r) = (r \<noteq> 0)"
| "truthy (JStr s) = (s \<noteq> [])"
| "truthy (JList xs) = (xs \<noteq> [])"
| "truthy (JObj kvs) = (kvs \<noteq> [])"

text \<open>\<^verbatim>\<open>d.get(k, default)\<close> on a dict, and on any value (only a dict has \<^verbatim>\<open>get\<close>).\<close>

definition dict_get :: "(string \<times> json) list \<Rightarrow> string \<Rightarrow> json \<Rightarrow> json" where
  "dict_get kvs k d = (case map_of kvs k of None \<Rightarrow> d | Some v \<Rightarrow> v)"

fun py_get :: "json \<Rightarrow> string \<Rightarrow> json \<Rightarrow> exn + json" where
  "py_get (JObj kvs) k d = Inr (dict_get kvs k d)"
| "py_get _ k d = Inl AttributeError"

text \<open>Iteration (\<^verbatim>\<open>for x in v\<close>): a list gives its elements, a string its characters, a
  dict its keys; nothing else is iterable.\<close>

fun py_iter :: "json \<Rightarrow> exn + json list" where
  "py_iter (JList xs) = Inr xs"
| "py_iter (JStr s) = Inr (map (\<lambda>c. JStr [c]) s)"
| "py_iter (JObj kvs) = Inr (map (\<lambda>kv. JStr (fst kv)) kvs)"
| "py_iter _ = Inl TypeError"

text \<open>
  \<^verbatim>\<open>''.join(filter(str.isdigit, v))\<close>: \<^verbatim>\<open>filter\<close> iterates over \<open>v\<close> and applies
  \<^verbatim>\<open>str.isdigit\<close>, which accepts only strings, to every element.
\<close>

fun the_strings :: "json list \<Rightarrow> string list option" where
  "the_strings [] = Some []"
| "the_strings (JStr s # xs) = map_option ((#) s) (the_strings xs)"
| "the_strings (_ # xs) = None"

definition only_digits :: "json \<Rightarrow> exn + string" where
  "only_digits v =
     (case py_iter v of
        Inl e \<Rightarrow> Inl e
      | Inr xs \<Rightarrow>
          (case the_strings xs of
             None \<Rightarrow> Inl TypeError
           | Some ss \<Rightarrow> Inr (concat (filter isdigit ss))))"

text \<open>Numbers: \<^verbatim>\<open>bool\<close> is a subtype of \<^verbatim>\<open>int\<close>, and \<^verbatim>\<open>int\<close> compares with \<^verbatim>\<open>float\<close>.\<close>

fun num_val :: "json \<Rightarrow> rat option" where
  "num_val (JBool b) = Some (if b then 1 else 0)"
| "num_val (JInt n) = Some (of_int n)"
| "num_val (JFloat r) = Some r"
| "num_val _ = None"

text \<open>\<^verbatim>\<open>a == b\<close>, which never raises on these values.\<close>

fun py_eq :: "json \<Rightarrow> json \<Rightarrow> bool" where
  "py_eq JNull b = (b = JNull)"
| "py_eq (JStr s) b = (b = JStr s)"
| "py_eq (JList xs) b = (case b of JList ys \<Rightarrow> list_all2 py_eq xs ys | _ \<Rightarrow> False)"
| "py_eq (JObj kvs) b =
     (case b of
        JObj kws \<Rightarrow>
          length kvs = length kws \<and>
          list_all (\<lambda>(k, v). case map_of kws k of None \<Rightarrow> False | Some w \<Rightarrow> py_eq v w) kvs
      | _ \<Rightarrow> False)"
| "py_eq a b = (case num_val b of None \<Rightarrow> False | Some r \<Rightarrow> num_val a = Some r)"

text \<open>
  \<^verbatim>\<open>a < b\<close>: numbers with numbers, strings with strings, lists with lists (the first
  pair of unequal elements decides, else the shorter list is smaller); every other
  pairing raises \<^verbatim>\<open>TypeError\<close>.
\<close>

fun py_lt :: "json \<Rightarrow> json \<Rightarrow> exn + bool"
  and py_lt_list :: "json list \<Rightarrow> json list \<Rightarrow> exn + bool" where
  "py_lt (JStr s) b = (case b of JStr t \<Rightarrow> Inr (str_lt s t) | _ \<Rightarrow> Inl TypeError)"
| "py_lt (JList xs) b = (case b of JList ys \<Rightarrow> py_lt_list xs ys | _ \<Rightarrow> Inl TypeError)"
| "py_lt JNull b = Inl TypeError"
| "py_lt (JObj kvs) b = Inl TypeError"
| "py_lt a b =
     (case (num_val a, num_val b) of
        (Some r, Some s) \<Rightarrow> Inr (r < s)
      | _ \<Rightarrow> Inl TypeError)"
| "py_lt_list [] [] = Inr False"
| "py_lt_list [] (y # ys) = Inr True"
| "py_lt_list (x # xs) [] = Inr False"
| "py_lt_list (x # xs) (y # ys) = (if py_eq x y then py_lt_list xs ys else py_lt x y)"

text \<open>\<^verbatim>\<open>n <= v\<close> and \<^verbatim>\<open>n > v\<close> for an \<^verbatim>\<open>int\<close> \<open>n\<close>, as the pagination loop compares the
  page counter with the page total the API reported.\<close>

definition int_le :: "int \<Rightarrow> json \<Rightarrow> exn + bool" where
  "int_le n v = (case num_val v of None \<Rightarrow> Inl TypeError | Some r \<Rightarrow> Inr (of_int n \<le> r))"

definition int_gt :: "int \<Rightarrow> json \<Rightarrow> exn + bool" where
  "int_gt n v = (case num_val v of None \<Rightarrow> Inl TypeError | Some r \<Rightarrow> Inr (r < of_int n))"

section \<open>The records client: \<^verbatim>\<open>call_omie_api\<close>\<close>

record settings =
  omie_api_base_url :: string
  omie_app_key :: string
  omie_app_secret :: string

text \<open>
  What one \<^verbatim>\<open>client.post\<close> can do: fail in transport (\<^verbatim>\<open>httpx.RequestError\<close>, with its
  text), raise something else, or answer with a status code, a body text and what
  \<^verbatim>\<open>response.json()\<close> makes of it. The transport itself is outside the repository: it is
  a function from the request (URL and JSON payload) to this outcome.
\<close>

datatype http_result =
    RequestError string
  | OtherFailure
  | Response int string "exn + json"

type_synonym omie_api = "string \<Rightarrow> json \<Rightarrow> http_result"

text \<open>\<^verbatim>\<open>response.raise_for_status()\<close> raises for every status outside 2xx.\<close>

definition raise_for_status :: "int \<Rightarrow> bool" where
  "raise_for_status status = (\<not> (200 \<le> status \<and> status \<le> 299))"

definition error_dict :: "json \<Rightarrow> json \<Rightarrow> (string \<times> json) list" where
  "error_dict status_code message =
     [(''error'', JBool True), (''status_code'', status_code), (''message'', message)]"

definition msg_unexpected :: string where
  "msg_unexpected = ''Erro inesperado no processamento da API''"

definition msg_decode :: string where
  "msg_decode = ''Falha ao decodificar a resposta da API Omie''"

definition msg_unknown_fault :: string where
  "msg_unknown_fault = ''Erro desconhecido da Omie''"

text \<open>Lines 62 to 83: the \<^verbatim>\<open>try\<close> block and its four handlers.\<close>

fun handle_response :: "http_result \<Rightarrow> (string \<times> json) list" where
  "handle_response (RequestError text) = error_dict JNull (JStr text)"
| "handle_response OtherFailure = error_dict JNull (JStr msg_unexpected)"
| "handle_response (Response status text body) =
     (if raise_for_status status then error_dict (JInt status) (JStr text)
      else
        (case body of
           Inl JSONDecodeError \<Rightarrow> error_dict (JInt status) (JStr msg_decode)
         | Inl _ \<Rightarrow> error_dict JNull (JStr msg_unexpected)
         | Inr (JObj response_json) \<Rightarrow>
             (if truthy (dict_get response_json ''faultstring'' JNull)
                 \<or> truthy (dict_get response_json ''faultcode'' JNull)
              then error_dict (JInt status)
                     (dict_get response_json ''faultstring'' (JStr msg_unknown_fault))
              else response_json)
         | Inr _ \<Rightarrow> error_dict JNull (JStr msg_unexpected)))"

definition payload :: "settings \<Rightarrow> string \<Rightarrow> json list \<Rightarrow> json" where
  "payload cfg call_name params =
     JObj [(''call'', JStr call_name),
           (''app_key'', JStr (omie_app_key cfg)),
           (''app_secret'', JStr (omie_app_secret cfg)),
           (''param'', JList params)]"

definition call_omie_api ::
  "settings \<Rightarrow> omie_api \<Rightarrow> string \<Rightarrow> string \<Rightarrow> json list \<Rightarrow> (string \<times> json) list" where
  "call_omie_api cfg post endpoint_path call_name params =
     handle_response
       (post (omie_api_base_url cfg @ endpoint_path) (payload cfg call_name params))"

definition sample_settings :: settings where
  "sample_settings =
     \<lparr>omie_api_base_url = ''https://app.omie.com.br/api/v1'',
      omie_app_key = ''key'', omie_app_secret = ''secret''\<rparr>"

section \<open>The customer search: \<^verbatim>\<open>encontrar_pedidos_cliente\<close>\<close>

text \<open>
  The tool returns a list of order summaries or a text. The texts are kept apart by a
  constructor each, which carries the values the f-string interpolates; the comment
  gives the line of the \<^verbatim>\<open>return\<close>.
\<close>

datatype message =
    NoSearchParameter          \<comment> \<open>line 102\<close>
  | ClienteSearchError int json \<comment> \<open>line 150: page, message of the error object\<close>
  | MultipleCnpj json          \<comment> \<open>line 165: the \<^verbatim>\<open>cnpj_cpf\<close> argument\<close>
  | NotFoundFirstPage          \<comment> \<open>line 180\<close>
  | MultipleNames nat json     \<comment> \<open>line 201: \<^verbatim>\<open>len(unique_names)\<close>, the \<^verbatim>\<open>nome_fantasia\<close> argument\<close>
  | NotFoundAfterPages         \<comment> \<open>line 205\<close>
  | PedidosSearchError json    \<comment> \<open>line 223: message of the error object\<close>
  | NoPedidosOnPage json       \<comment> \<open>line 229: \<^verbatim>\<open>customer_id\<close>\<close>
  | NoPedidosProcessed json    \<comment> \<open>line 280: \<^verbatim>\<open>customer_id\<close>\<close>

datatype tool_result = Message message | Orders "json list"

text \<open>How a block of the function ends: an exception leaves it, a \<^verbatim>\<open>return\<close> ends the
  tool with a text, or control goes on with the variables as they are.\<close>

datatype 'a flow = Raises exn | Returns message | Continues 'a

record match_state =
  customer_id :: json
  found_customer_details :: json
  possible_matches_by_name :: "json list"

definition no_match :: match_state where
  "no_match = \<lparr>customer_id = JNull, found_customer_details = JNull,
                possible_matches_by_name = []\<rparr>"

definition msg_unknown_api :: string where
  "msg_unknown_api = ''Erro desconhecido na API''"

text \<open>Line 106: the digits of the \<^verbatim>\<open>cnpj_cpf\<close> argument, or \<^verbatim>\<open>None\<close> when it is falsy.\<close>

definition normalize_input :: "json \<Rightarrow> exn + json" where
  "normalize_input cnpj_cpf =
     (if truthy cnpj_cpf
      then (case only_digits cnpj_cpf of Inl e \<Rightarrow> Inl e | Inr d \<Rightarrow> Inr (JStr d))
      else Inr JNull)"

text \<open>Line 171: \<^verbatim>\<open>nome_fantasia.lower() in api_nome_fantasia.lower()\<close>; only a string
  has \<^verbatim>\<open>lower\<close>.\<close>

definition name_matches :: "json \<Rightarrow> json \<Rightarrow> exn + bool" where
  "name_matches nome_fantasia api_nome_fantasia =
     (case nome_fantasia of
        JStr a \<Rightarrow>
          (case api_nome_fantasia of
             JStr b \<Rightarrow> Inr (str_in (lower a) (lower b))
           | _ \<Rightarrow> Inl AttributeError)
      | _ \<Rightarrow> Inl AttributeError)"

text \<open>
  Lines 159 to 173: the \<^verbatim>\<open>for\<close> loop over the records of one page. The \<^verbatim>\<open>break\<close> of
  line 169 ends the loop with the record found.
\<close>

fun scan_page :: "json \<Rightarrow> json \<Rightarrow> json \<Rightarrow> json list \<Rightarrow> match_state \<Rightarrow> match_state flow" where
  "scan_page cnpj_cpf normalized nome_fantasia [] st = Continues st"
| "scan_page cnpj_cpf normalized nome_fantasia (cliente_in_list # rest) st =
     (case cliente_in_list of
        JObj cliente \<Rightarrow>
          (case only_digits (dict_get cliente ''cnpj_cpf'' (JStr [])) of
             Inl e \<Rightarrow> Raises e
           | Inr api_cnpj_cpf \<Rightarrow>
               (if truthy normalized \<and> JStr api_cnpj_cpf = normalized then
                  (if truthy (found_customer_details st) then Returns (MultipleCnpj cnpj_cpf)
                   else Continues
                          (st\<lparr>found_customer_details := cliente_in_list,
                              customer_id := dict_get cliente ''codigo_cliente_omie'' JNull\<rparr>))
                else if truthy nome_fantasia \<and> \<not> truthy normalized then
                  (case name_matches nome_fantasia (dict_get cliente ''nome_fantasia'' (JStr [])) of
                     Inl e \<Rightarrow> Raises e
                   | Inr True \<Rightarrow>
                       scan_page cnpj_cpf normalized nome_fantasia rest
                         (st\<lparr>possible_matches_by_name :=
                               possible_matches_by_name st @ [cliente_in_list]\<rparr>)
                   | Inr False \<Rightarrow> scan_page cnpj_cpf normalized nome_fantasia rest st)
                else scan_page cnpj_cpf normalized nome_fantasia rest st))
      | _ \<Rightarrow> Raises AttributeError)"

text \<open>
  Lines 149 to 183: one pass of the \<^verbatim>\<open>while\<close> loop after the page has been fetched.
  It ends the loop (\<open>Stop\<close>: a \<^verbatim>\<open>return\<close>, an exception, or the \<^verbatim>\<open>break\<close> of line 176) or
  goes to the next page (\<open>Again\<close>) with \<^verbatim>\<open>total_pages\<close> and the matches so far. The
  comparison of line 183 only guards a \<^verbatim>\<open>print\<close>, but it raises when \<^verbatim>\<open>total_pages\<close> is
  not a number.
\<close>

datatype step = Stop "match_state flow" | Again json match_state

definition page_body ::
  "json \<Rightarrow> json \<Rightarrow> json \<Rightarrow> int \<Rightarrow> json \<Rightarrow> match_state \<Rightarrow> (string \<times> json) list \<Rightarrow> step" where
  "page_body cnpj_cpf normalized nome_fantasia current_page total_pages st cliente_response =
     (if truthy (dict_get cliente_response ''error'' JNull) then
        Stop (Returns (ClienteSearchError current_page
                (dict_get cliente_response ''message'' (JStr msg_unknown_api))))
      else
        (let total_pages' =
               (if current_page = 1
                then dict_get cliente_response ''total_de_paginas'' (JInt 1)
                else total_pages);
             clientes_cadastro_pagina_atual = dict_get cliente_response ''clientes_cadastro'' JNull
         in case (if truthy clientes_cadastro_pagina_atual
                  then (case py_iter clientes_cadastro_pagina_atual of
                          Inl e \<Rightarrow> Raises e
                        | Inr clientes \<Rightarrow> scan_page cnpj_cpf normalized nome_fantasia clientes st)
                  else Continues st) of
              Raises e \<Rightarrow> Stop (Raises e)
            | Returns m \<Rightarrow> Stop (Returns m)
            | Continues st' \<Rightarrow>
                (if truthy clientes_cadastro_pagina_atual \<and> truthy (customer_id st')
                 then Stop (Continues st')
                 else if \<not> truthy clientes_cadastro_pagina_atual \<and> current_page = 1
                         \<and> py_eq total_pages' (JInt 1)
                 then Stop (Returns NotFoundFirstPage)
                 else (case int_gt (current_page + 1) total_pages' of
                         Inl e \<Rightarrow> Stop (Raises e)
                       | Inr b \<Rightarrow> Again total_pages' st'))))"

text \<open>
  Lines 117 to 183: the \<^verbatim>\<open>while\<close> loop. \<open>listar\<close> is the call of line 147 as a function
  of the page number. The result is how the loop ends together with the pages that
  were requested, in order. Inside the loop \<^verbatim>\<open>total_pages\<close> has just been compared with
  an \<^verbatim>\<open>int\<close>, so the comparison in the \<^verbatim>\<open>print\<close> of line 121 cannot raise.
\<close>

function scan_directory ::
  "(int \<Rightarrow> (string \<times> json) list) \<Rightarrow> json \<Rightarrow> json \<Rightarrow> json \<Rightarrow> int \<Rightarrow> json \<Rightarrow> match_state
     \<Rightarrow> match_state flow \<times> int list" where
  "scan_directory listar cnpj_cpf normalized nome_fantasia current_page total_pages st =
     (case int_le current_page total_pages of
        Inl e \<Rightarrow> (Raises e, [])
      | Inr False \<Rightarrow> (Continues st, [])
      | Inr True \<Rightarrow>
          (if truthy (customer_id st) then (Continues st, [])
           else
             (case page_body cnpj_cpf normalized nome_fantasia current_page total_pages st
                     (listar current_page) of
                Stop r \<Rightarrow> (r, [current_page])
              | Again total_pages' st' \<Rightarrow>
                  apsnd ((#) current_page)
                    (scan_directory listar cnpj_cpf normalized nome_fantasia
                       (current_page + 1) total_pages' st'))))"
  by pat_completeness auto

definition pages_left :: "int \<Rightarrow> json \<Rightarrow> nat" where
  "pages_left current_page total_pages =
     (case num_val total_pages of
        None \<Rightarrow> 0
      | Some r \<Rightarrow> nat (\<lfloor>r\<rfloor> + 1 - current_page))"

termination scan_directory
proof (relation "measures
         [\<lambda>(listar, cnpj_cpf, normalized, nome_fantasia, current_page, total_pages, st).
            nat (2 - current_page),
          \<lambda>(listar, cnpj_cpf, normalized, nome_fantasia, current_page, total_pages, st).
            pages_left current_page total_pages]", goal_cases)
  case 1
  show ?case by simp
next
  case (2 listar cnpj_cpf normalized nome_fantasia current_page total_pages st b total_pages' st')
  from 2(4) have tp: "total_pages' =
      (if current_page = 1 then dict_get (listar current_page) ''total_de_paginas'' (JInt 1)
       else total_pages)"
    by (auto simp: page_body_def Let_def split: if_splits flow.splits sum.splits)
  from 2(1,2) obtain r where r: "num_val total_pages = Some r" "of_int current_page \<le> r"
    by (auto simp: int_le_def split: option.splits)
  from r(2) have "current_page \<le> \<lfloor>r\<rfloor>" by (simp add: le_floor_iff)
  with tp r show ?case
    by (auto simp: pages_left_def)
qed

text \<open>
  Line 195: the dict comprehension \<^verbatim>\<open>{match.get("nome_fantasia"): match for match in ...}\<close>.
  A key that is already there keeps its place and takes the new value. The keys are
  compared with \<open>=\<close>, which is Python's \<^verbatim>\<open>==\<close> on strings; the display name of a
  collected match is always a string, since \<^verbatim>\<open>lower\<close> was applied to it.
\<close>

fun dict_set :: "'k \<Rightarrow> 'v \<Rightarrow> ('k \<times> 'v) list \<Rightarrow> ('k \<times> 'v) list" where
  "dict_set k v [] = [(k, v)]"
| "dict_set k v (kv # d) = (if fst kv = k then (k, v) # d else kv # dict_set k v d)"

definition match_name :: "json \<Rightarrow> exn + json" where
  "match_name m = py_get m ''nome_fantasia'' JNull"

fun unique_names_from :: "(json \<times> json) list \<Rightarrow> json list \<Rightarrow> exn + (json \<times> json) list" where
  "unique_names_from d [] = Inr d"
| "unique_names_from d (m # ms) =
     (case match_name m of
        Inl e \<Rightarrow> Inl e
      | Inr k \<Rightarrow> unique_names_from (dict_set k m d) ms)"

definition unique_names :: "json list \<Rightarrow> exn + (json \<times> json) list" where
  "unique_names ms = unique_names_from [] ms"

text \<open>Lines 191-192 and 198-199: the record chosen and its \<^verbatim>\<open>codigo_cliente_omie\<close>.\<close>

definition use_record :: "json \<Rightarrow> match_state \<Rightarrow> match_state flow" where
  "use_record m st =
     (case py_get m ''codigo_cliente_omie'' JNull of
        Inl e \<Rightarrow> Raises e
      | Inr c \<Rightarrow> Continues (st\<lparr>found_customer_details := m, customer_id := c\<rparr>))"

text \<open>Lines 188 to 201: what is done with the name matches once the loop is over.\<close>

definition resolve_by_name :: "json \<Rightarrow> match_state \<Rightarrow> match_state flow" where
  "resolve_by_name nome_fantasia st =
     (if \<not> truthy (customer_id st) \<and> possible_matches_by_name st \<noteq> [] then
        (case possible_matches_by_name st of
           [m] \<Rightarrow> use_record m st
         | ms \<Rightarrow>
             (case unique_names ms of
                Inl e \<Rightarrow> Raises e
              | Inr [(k, m)] \<Rightarrow> use_record m st
              | Inr d \<Rightarrow> Returns (MultipleNames (length d) nome_fantasia)))
      else Continues st)"

text \<open>Lines 204-205: \<^verbatim>\<open>if not customer_id or not found_customer_details\<close>.\<close>

definition require_customer :: "match_state \<Rightarrow> match_state flow" where
  "require_customer st =
     (if truthy (customer_id st) \<and> truthy (found_customer_details st)
      then Continues st else Returns NotFoundAfterPages)"

text \<open>Lines 125 to 145: the parameters of \<^verbatim>\<open>ListarClientes\<close> for one page.\<close>

definition cliente_filter :: "json \<Rightarrow> json \<Rightarrow> json \<Rightarrow> (string \<times> json) list" where
  "cliente_filter normalized nome_fantasia cidade =
     (if truthy normalized then [(''cnpj_cpf'', normalized)]
      else if truthy nome_fantasia then [(''nome_fantasia'', nome_fantasia)]
      else if truthy cidade then [(''cidade'', cidade)]
      else [])"

definition listar_clientes_params :: "json \<Rightarrow> json \<Rightarrow> json \<Rightarrow> int \<Rightarrow> json" where
  "listar_clientes_params normalized nome_fantasia cidade current_page =
     JObj [(''pagina'', JInt current_page),
           (''registros_por_pagina'', JInt 50),
           (''apenas_importado_api'', JStr ''N''),
           (''clientesFiltro'', JObj (cliente_filter normalized nome_fantasia cidade))]"

definition listar_clientes ::
  "settings \<Rightarrow> omie_api \<Rightarrow> json \<Rightarrow> json \<Rightarrow> json \<Rightarrow> int \<Rightarrow> (string \<times> json) list" where
  "listar_clientes cfg post normalized nome_fantasia cidade current_page =
     call_omie_api cfg post ''/geral/clientes/'' ''ListarClientes''
       [listar_clientes_params normalized nome_fantasia cidade current_page]"

text \<open>
  Lines 105 to 205: the resolution of the customer. The result is the outcome (with the
  customer in \<open>customer_id\<close> and \<open>found_customer_details\<close> when it goes on to the orders)
  and the pages of the directory that were requested.
\<close>

definition find_customer ::
  "settings \<Rightarrow> omie_api \<Rightarrow> json \<Rightarrow> json \<Rightarrow> json \<Rightarrow> match_state flow \<times> int list" where
  "find_customer cfg post cnpj_cpf nome_fantasia cidade =
     (case normalize_input cnpj_cpf of
        Inl e \<Rightarrow> (Raises e, [])
      | Inr normalized \<Rightarrow>
          (case scan_directory (listar_clientes cfg post normalized nome_fantasia cidade)
                  cnpj_cpf normalized nome_fantasia 1 (JInt 1) no_match of
             (Continues st, pages) \<Rightarrow>
               (case resolve_by_name nome_fantasia st of
                  Continues st' \<Rightarrow> (require_customer st', pages)
                | r \<Rightarrow> (r, pages))
           | (r, pages) \<Rightarrow> (r, pages)))"

section \<open>The orders of the customer\<close>

text \<open>A function applied to every element in turn; the first exception ends it.\<close>

fun map_exn :: "('a \<Rightarrow> exn + 'b) \<Rightarrow> 'a list \<Rightarrow> exn + 'b list" where
  "map_exn f [] = Inr []"
| "map_exn f (x # xs) =
     (case f x of
        Inl e \<Rightarrow> Inl e
      | Inr y \<Rightarrow> (case map_exn f xs of Inl e \<Rightarrow> Inl e | Inr ys \<Rightarrow> Inr (y # ys)))"

text \<open>Line 245: \<^verbatim>\<open>lambda p: p.get("cabecalho", {}).get("numero_pedido", "0")\<close>.\<close>

definition numero_pedido_key :: "json \<Rightarrow> exn + json" where
  "numero_pedido_key p =
     (case py_get p ''cabecalho'' (JObj []) of
        Inl e \<Rightarrow> Inl e
      | Inr cabecalho \<Rightarrow> py_get cabecalho ''numero_pedido'' (JStr ''0''))"

text \<open>
  \<^verbatim>\<open>sorted(xs, key=f, reverse=True)\<close> computes the keys, reverses the list, sorts it
  stably in ascending order with \<^verbatim>\<open><\<close> on the keys alone, and reverses the result. The
  sort of the library is modelled as a stable insertion sort, which raises as soon as a
  comparison raises.
\<close>

fun insert_by_key :: "json \<times> 'a \<Rightarrow> (json \<times> 'a) list \<Rightarrow> exn + (json \<times> 'a) list" where
  "insert_by_key x [] = Inr [x]"
| "insert_by_key x (y # ys) =
     (case py_lt (fst x) (fst y) of
        Inl e \<Rightarrow> Inl e
      | Inr True \<Rightarrow> Inr (x # y # ys)
      | Inr False \<Rightarrow>
          (case insert_by_key x ys of Inl e \<Rightarrow> Inl e | Inr zs \<Rightarrow> Inr (y # zs)))"

fun sort_by_key :: "(json \<times> 'a) list \<Rightarrow> (json \<times> 'a) list \<Rightarrow> exn + (json \<times> 'a) list" where
  "sort_by_key acc [] = Inr acc"
| "sort_by_key acc (x # xs) =
     (case insert_by_key x acc of
        Inl e \<Rightarrow> Inl e
      | Inr acc' \<Rightarrow> sort_by_key acc' xs)"

definition sorted_reverse :: "('a \<Rightarrow> exn + json) \<Rightarrow> 'a list \<Rightarrow> exn + 'a list" where
  "sorted_reverse f xs =
     (case map_exn f xs of
        Inl e \<Rightarrow> Inl e
      | Inr ks \<Rightarrow>
          (case sort_by_key [] (rev (zip ks xs)) of
             Inl e \<Rightarrow> Inl e
           | Inr r \<Rightarrow> Inr (rev (map snd r))))"

text \<open>Lines 242 to 250: the \<^verbatim>\<open>try\<close> around \<^verbatim>\<open>sorted\<close>, with its fallback.\<close>

definition pedidos_ordenados :: "json \<Rightarrow> json" where
  "pedidos_ordenados pedidos_venda_produto =
     (case py_iter pedidos_venda_produto of
        Inl e \<Rightarrow> pedidos_venda_produto
      | Inr ps \<Rightarrow>
          (case sorted_reverse numero_pedido_key ps of
             Inl e \<Rightarrow> pedidos_venda_produto
           | Inr r \<Rightarrow> JList r))"

text \<open>Line 252: the slice \<^verbatim>\<open>[:3]\<close>, which a list and a string have.\<close>

fun first_three :: "json \<Rightarrow> exn + json" where
  "first_three (JList xs) = Inr (JList (take 3 xs))"
| "first_three (JStr s) = Inr (JStr (take 3 s))"
| "first_three _ = Inl TypeError"

definition recent_orders :: "json \<Rightarrow> exn + json" where
  "recent_orders pedidos_venda_produto = first_three (pedidos_ordenados pedidos_venda_produto)"

text \<open>Lines 257 to 276: the summary of one order.\<close>

definition format_item :: "json \<Rightarrow> exn + json" where
  "format_item item_detail =
     (case py_get item_detail ''produto'' (JObj []) of
        Inl e \<Rightarrow> Inl e
      | Inr (JObj produto_info) \<Rightarrow>
          Inr (JObj [(''descricao_produto'', dict_get produto_info ''descricao'' (JStr ''N/A'')),
                     (''quantidade'', dict_get produto_info ''quantidade'' (JInt 0)),
                     (''valor_unitario'', dict_get produto_info ''valor_unitario'' (JFloat 0)),
                     (''valor_total_item'', dict_get produto_info ''valor_total'' (JFloat 0))])
      | Inr _ \<Rightarrow> Inl AttributeError)"

definition format_order :: "json \<Rightarrow> exn + json" where
  "format_order order =
     (case order of
        JObj pedido \<Rightarrow>
          (case py_iter (dict_get pedido ''det'' (JList [])) of
             Inl e \<Rightarrow> Inl e
           | Inr det \<Rightarrow>
               (case map_exn format_item det of
                  Inl e \<Rightarrow> Inl e
                | Inr itens_list \<Rightarrow>
                    (case (dict_get pedido ''cabecalho'' (JObj []),
                           dict_get pedido ''total_pedido'' (JObj [])) of
                       (JObj cabecalho, JObj total_pedido_info) \<Rightarrow>
                         Inr (JObj
                           [(''numero_pedido'', dict_get cabecalho ''numero_pedido'' (JStr ''N/A'')),
                            (''data_previsao'', dict_get cabecalho ''data_previsao'' (JStr ''N/A'')),
                            (''etapa_pedido'', dict_get cabecalho ''etapa'' (JStr ''N/A'')),
                            (''valor_total_pedido'',
                               dict_get total_pedido_info ''valor_total_pedido'' (JFloat 0)),
                            (''itens'', JList itens_list)])
                     | _ \<Rightarrow> Inl AttributeError)))
      | _ \<Rightarrow> Inl AttributeError)"

definition listar_pedidos_params :: "json \<Rightarrow> json" where
  "listar_pedidos_params cid =
     JObj [(''pagina'', JInt 1),
           (''registros_por_pagina'', JInt 50),
           (''apenas_importado_api'', JStr ''N''),
           (''filtrar_por_cliente'', cid)]"

text \<open>Lines 209 to 282: the orders of the customer found.\<close>

definition pedidos_do_cliente :: "settings \<Rightarrow> omie_api \<Rightarrow> json \<Rightarrow> exn + tool_result" where
  "pedidos_do_cliente cfg post cid =
     (let pedidos_response =
            call_omie_api cfg post ''/produtos/pedido/'' ''ListarPedidos''
              [listar_pedidos_params cid]
      in if truthy (dict_get pedidos_response ''error'' JNull) then
           Inr (Message (PedidosSearchError
                  (dict_get pedidos_response ''message'' (JStr msg_unknown_api))))
         else
           (let pedidos_venda_produto = dict_get pedidos_response ''pedido_venda_produto'' JNull
            in if \<not> truthy pedidos_venda_produto then Inr (Message (NoPedidosOnPage cid))
               else
                 (case recent_orders pedidos_venda_produto of
                    Inl e \<Rightarrow> Inl e
                  | Inr recent \<Rightarrow>
                      (case py_iter recent of
                         Inl e \<Rightarrow> Inl e
                       | Inr orders \<Rightarrow>
                           (case map_exn format_order orders of
                              Inl e \<Rightarrow> Inl e
                            | Inr [] \<Rightarrow> Inr (Message (NoPedidosProcessed cid))
                            | Inr formatted_orders \<Rightarrow> Inr (Orders formatted_orders))))))"

text \<open>Lines 88 to 282. The arguments are any values: the second tool passes on what the
  language model's reply holds under the three keys.\<close>

definition encontrar_pedidos_cliente ::
  "settings \<Rightarrow> omie_api \<Rightarrow> json \<Rightarrow> json \<Rightarrow> json \<Rightarrow> exn + tool_result" where
  "encontrar_pedidos_cliente cfg post cnpj_cpf nome_fantasia cidade =
     (if \<not> (truthy cnpj_cpf \<or> truthy nome_fantasia \<or> truthy cidade)
      then Inr (Message NoSearchParameter)
      else
        (case fst (find_customer cfg post cnpj_cpf nome_fantasia cidade) of
           Raises e \<Rightarrow> Inl e
         | Returns m \<Rightarrow> Inr (Message m)
         | Continues st \<Rightarrow> pedidos_do_cliente cfg post (customer_id st)))"

section \<open>The question tool: \<^verbatim>\<open>responder_pergunta_sobre_pedidos\<close>\<close>

text \<open>Lines 331 to 336: the text handed to \<^verbatim>\<open>json.loads\<close>.\<close>

definition fence :: string where
  "fence = [CHR 0x60, CHR 0x60, CHR 0x60]"

definition extract_json_text :: "string \<Rightarrow> string" where
  "extract_json_text raw_response_text =
     (if startswith (strip raw_response_text) (fence @ ''json'')
      then strip (slice_between 7 3 (strip raw_response_text))
      else if startswith (strip raw_response_text) fence
      then strip (slice_between 3 3 (strip raw_response_text))
      else strip raw_response_text)"

text \<open>
  The language model is outside the repository. A prompt is the values its f-string
  interpolates; \<open>model_ok\<close> says whether \<^verbatim>\<open>genai.GenerativeModel\<close> returns, and
  \<open>generate_content\<close> gives the \<^verbatim>\<open>text\<close> of the reply to a prompt, or the exception of
  the call. \<^verbatim>\<open>json.loads\<close> is a parameter \<open>loads\<close> of the tool.
\<close>

datatype prompt =
    PromptAnalise string
  | PromptResposta string json "json list"

record gemini =
  model_ok :: bool
  generate_content :: "prompt \<Rightarrow> exn + string"

datatype answer =
    AIUnavailable            \<comment> \<open>line 302\<close>
  | NotUnderstood            \<comment> \<open>line 344\<close>
  | AnalysisFailed           \<comment> \<open>line 347\<close>
  | OnlyAboutPedidos         \<comment> \<open>line 350\<close>
  | NeedCustomer             \<comment> \<open>line 358\<close>
  | PedidosNotFound message  \<comment> \<open>line 370\<close>
  | NoPedidosFor json json json \<comment> \<open>line 373\<close>
  | FinalAnswer string       \<comment> \<open>line 398\<close>
  | FinalAnswerFailed        \<comment> \<open>line 401\<close>

text \<open>
  Lines 326 to 347: the first exchange. \<^verbatim>\<open>except json.JSONDecodeError\<close> comes first and
  prints \<^verbatim>\<open>raw_response_text\<close>, which is unbound when the call itself raised it.
\<close>

definition analyse :: "gemini \<Rightarrow> (string \<Rightarrow> exn + json) \<Rightarrow> string \<Rightarrow> (exn + answer) + json" where
  "analyse model loads pergunta_usuario =
     (case generate_content model (PromptAnalise pergunta_usuario) of
        Inl JSONDecodeError \<Rightarrow> Inl (Inl UnboundLocalError)
      | Inl _ \<Rightarrow> Inl (Inr AnalysisFailed)
      | Inr raw_response_text \<Rightarrow>
          (case loads (extract_json_text raw_response_text) of
             Inl JSONDecodeError \<Rightarrow> Inl (Inr NotUnderstood)
           | Inl _ \<Rightarrow> Inl (Inr AnalysisFailed)
           | Inr dados_interpretados \<Rightarrow> Inr dados_interpretados))"

text \<open>Lines 286 to 401.\<close>

definition responder_pergunta_sobre_pedidos ::
  "settings \<Rightarrow> omie_api \<Rightarrow> gemini \<Rightarrow> (string \<Rightarrow> exn + json) \<Rightarrow> string \<Rightarrow> exn + answer" where
  "responder_pergunta_sobre_pedidos cfg post model loads pergunta_usuario =
     (if \<not> model_ok model then Inr AIUnavailable
      else
        (case analyse model loads pergunta_usuario of
           Inl r \<Rightarrow> r
         | Inr (JObj dados_interpretados) \<Rightarrow>
             (if \<not> truthy (dict_get dados_interpretados ''sobre_pedidos'' JNull)
              then Inr OnlyAboutPedidos
              else
                (let cnpj_cpf_ia = dict_get dados_interpretados ''cnpj_cpf'' JNull;
                     nome_fantasia_ia = dict_get dados_interpretados ''nome_fantasia'' JNull;
                     cidade_ia = dict_get dados_interpretados ''cidade'' JNull;
                     pergunta_especifica_ia =
                       dict_get dados_interpretados ''pergunta_especifica'' JNull
                 in if \<not> (truthy cnpj_cpf_ia \<or> truthy nome_fantasia_ia \<or> truthy cidade_ia)
                    then Inr NeedCustomer
                    else
                      (case encontrar_pedidos_cliente cfg post
                              cnpj_cpf_ia nome_fantasia_ia cidade_ia of
                         Inl e \<Rightarrow> Inl e
                       | Inr (Message m) \<Rightarrow> Inr (PedidosNotFound m)
                       | Inr (Orders pedidos_data) \<Rightarrow>
                           (if pedidos_data = []
                            then Inr (NoPedidosFor cnpj_cpf_ia nome_fantasia_ia cidade_ia)
                            else
                              (case generate_content model
                                      (PromptResposta pergunta_usuario
                                         pergunta_especifica_ia pedidos_data) of
                                 Inl e \<Rightarrow> Inr FinalAnswerFailed
                               | Inr resposta_formatada \<Rightarrow>
                                   Inr (FinalAnswer resposta_formatada))))))
         | Inr _ \<Rightarrow> Inl AttributeError))"

section \<open>Pages of the directory, as the tax id search sees them\<close>

text \<open>
  Line 160 on one record: the digits of its \<^verbatim>\<open>cnpj_cpf\<close>. A record has another tax id
  than \<open>d\<close> when line 160 yields digits other than \<open>d\<close>; a page is without hit when it
  is no error object and its \<^verbatim>\<open>clientes_cadastro\<close> is falsy or a list of such records.
\<close>

definition cnpj_digits :: "json \<Rightarrow> exn + string" where
  "cnpj_digits cliente_in_list =
     (case cliente_in_list of
        JObj cliente \<Rightarrow> only_digits (dict_get cliente ''cnpj_cpf'' (JStr []))
      | _ \<Rightarrow> Inl AttributeError)"

definition other_tax_id :: "string \<Rightarrow> json \<Rightarrow> bool" where
  "other_tax_id d cliente_in_list =
     (case cnpj_digits cliente_in_list of Inl e \<Rightarrow> False | Inr d' \<Rightarrow> d' \<noteq> d)"

definition page_without_hit :: "string \<Rightarrow> (string \<times> json) list \<Rightarrow> bool" where
  "page_without_hit d cliente_response =
     (\<not> truthy (dict_get cliente_response ''error'' JNull)
      \<and> (case dict_get cliente_response ''clientes_cadastro'' JNull of
            JList clientes \<Rightarrow> list_all (other_tax_id d) clientes
          | v \<Rightarrow> \<not> truthy v))"

text \<open>
  A record has the tax id \<open>d\<close> when line 160 yields exactly the digits \<open>d\<close> on it; the
  records of a page are the elements of its \<^verbatim>\<open>clientes_cadastro\<close> when that is a list.
\<close>

definition has_tax_id :: "string \<Rightarrow> json \<Rightarrow> bool" where
  "has_tax_id d cliente_in_list = (cnpj_digits cliente_in_list = Inr d)"

definition records_of :: "(string \<times> json) list \<Rightarrow> json list" where
  "records_of cliente_response =
     (case dict_get cliente_response ''clientes_cadastro'' JNull of
        JList clientes \<Rightarrow> clientes
      | _ \<Rightarrow> [])"

section \<open>Sample data\<close>

text \<open>A directory record, an order and its summary, a page of the directory, and an API
  that answers \<^verbatim>\<open>ListarClientes\<close> page by page and \<^verbatim>\<open>ListarPedidos\<close> with a list of
  orders, both with status 200.\<close>

definition cliente :: "json \<Rightarrow> string \<Rightarrow> json \<Rightarrow> json" where
  "cliente cnpj_cpf nome_fantasia codigo =
     JObj [(''codigo_cliente_omie'', codigo), (''cnpj_cpf'', cnpj_cpf),
           (''nome_fantasia'', JStr nome_fantasia)]"

definition pedido :: "string \<Rightarrow> json" where
  "pedido numero = JObj [(''cabecalho'', JObj [(''numero_pedido'', JStr numero)])]"

definition pedido_numero :: "int \<Rightarrow> json" where
  "pedido_numero numero = JObj [(''cabecalho'', JObj [(''numero_pedido'', JInt numero)])]"

definition summary :: "string \<Rightarrow> json" where
  "summary numero =
     JObj [(''numero_pedido'', JStr numero), (''data_previsao'', JStr ''N/A''),
           (''etapa_pedido'', JStr ''N/A''), (''valor_total_pedido'', JFloat 0),
           (''itens'', JList [])]"

definition page :: "json \<Rightarrow> json list \<Rightarrow> (string \<times> json) list" where
  "page n_pages clientes =
     [(''total_de_paginas'', n_pages), (''clientes_cadastro'', JList clientes)]"

definition requested_page :: "json \<Rightarrow> int" where
  "requested_page body =
     (case body of
        JObj b \<Rightarrow>
          (case dict_get b ''param'' JNull of
             JList [JObj p] \<Rightarrow> (case dict_get p ''pagina'' JNull of JInt n \<Rightarrow> n | _ \<Rightarrow> 0)
           | _ \<Rightarrow> 0)
      | _ \<Rightarrow> 0)"

definition sample_api :: "(int \<Rightarrow> (string \<times> json) list) \<Rightarrow> json list \<Rightarrow> omie_api" where
  "sample_api clientes pedidos url body =
     (if url = ''https://app.omie.com.br/api/v1/geral/clientes/''
      then Response 200 [] (Inr (JObj (clientes (requested_page body))))
      else Response 200 [] (Inr (JObj [(''pedido_venda_produto'', JList pedidos)])))"

definition gemini_says :: "string \<Rightarrow> gemini" where
  "gemini_says reply = \<lparr>model_ok = True, generate_content = (\<lambda>p. Inr reply)\<rparr>"

section \<open>Exceptions that reach the caller\<close>

text \<open>
  C1 fails on the code. When the reply of the language model parses to a JSON list,
  \<^verbatim>\<open>dados_interpretados.get\<close> of line 349, outside every \<^verbatim>\<open>try\<close>, raises
  \<^verbatim>\<open>AttributeError\<close>. When a directory record holds \<^verbatim>\<open>null\<close> under \<^verbatim>\<open>cnpj_cpf\<close>,
  \<^verbatim>\<open>filter(str.isdigit, None)\<close> of line 160 raises \<^verbatim>\<open>TypeError\<close>. Neither is caught.
\<close>

theorem tools_raise_on_list_reply_and_null_cnpj:
  "responder_pergunta_sobre_pedidos sample_settings (sample_api (\<lambda>p. page (JInt 1) []) [])
     (gemini_says ''[]'')
     (\<lambda>text. if text = ''[]'' then Inr (JList []) else Inl JSONDecodeError)
     ''Quais os pedidos da ACME?''
   = Inl AttributeError
   \<and> encontrar_pedidos_cliente sample_settings
       (sample_api (\<lambda>p. page (JInt 1) [cliente JNull ''ACME'' (JInt 7)]) [pedido ''1''])
       JNull (JStr ''acme'') JNull
   = Inl TypeError"
  by code_simp

section \<open>Two records with the tax id of the hint\<close>

text \<open>
  C2 fails on the code. The \<^verbatim>\<open>break\<close> of line 169 leaves the page at the first record
  whose digits equal the hint's, and line 176 leaves the pagination, so the test of
  line 164 never sees a second record: with two such records on one page, or on two
  pages, the first is the customer and its orders are returned.
\<close>

theorem duplicate_cnpj_resolves_to_first:
  "encontrar_pedidos_cliente sample_settings
     (sample_api
        (\<lambda>p. page (JInt 1) [cliente (JStr ''12.345'') ''ACME'' (JInt 1),
                             cliente (JStr ''12345'') ''ACME 2'' (JInt 2)])
        [pedido ''1''])
     (JStr ''12345'') JNull JNull
   = Inr (Orders [summary ''1''])
   \<and> find_customer sample_settings
       (sample_api
          (\<lambda>p. if p = 1 then page (JInt 2) [cliente (JStr ''12.345'') ''ACME'' (JInt 1)]
                else page (JInt 2) [cliente (JStr ''12345'') ''ACME 2'' (JInt 2)])
          [pedido ''1''])
       (JStr ''12345'') JNull JNull
   = (Continues \<lparr>customer_id = JInt 1,
                  found_customer_details = cliente (JStr ''12.345'') ''ACME'' (JInt 1),
                  possible_matches_by_name = []\<rparr>, [1])"
  by code_simp

section \<open>Several records with one display name\<close>

text \<open>
  C3 fails on the code. The dict comprehension of line 195 keeps, for a display name,
  the last record that has it, so \<^verbatim>\<open>list(unique_names.values())[0]\<close> is the last of the
  collected records, while line 197 prints that the first is used.
\<close>

theorem same_name_resolves_to_last:
  "find_customer sample_settings
     (sample_api
        (\<lambda>p. page (JInt 1) [cliente (JStr ''111'') ''ACME'' (JInt 1),
                             cliente (JStr ''222'') ''ACME'' (JInt 2)])
        [])
     JNull (JStr ''acme'') JNull
   = (Continues \<lparr>customer_id = JInt 2,
                  found_customer_details = cliente (JStr ''222'') ''ACME'' (JInt 2),
                  possible_matches_by_name =
                    [cliente (JStr ''111'') ''ACME'' (JInt 1),
                     cliente (JStr ''222'') ''ACME'' (JInt 2)]\<rparr>, [1])"
  by code_simp

section \<open>A search by city alone\<close>

text \<open>
  C10 fails on the code where C1 does: with only a city, a directory record that holds
  \<^verbatim>\<open>null\<close> under \<^verbatim>\<open>cnpj_cpf\<close> makes line 160 raise \<^verbatim>\<open>TypeError\<close>, and the call returns no
  text.
\<close>

theorem city_only_raises_on_null_cnpj:
  "encontrar_pedidos_cliente sample_settings
     (sample_api (\<lambda>p. page (JInt 1) [cliente JNull ''ACME'' (JInt 7)]) [pedido ''1''])
     JNull JNull (JStr ''Goiania'')
   = Inl TypeError"
  by code_simp

section \<open>Fault detection in \<^verbatim>\<open>call_omie_api\<close>\<close>

text \<open>
  C9, as stated, fails: a 2xx response whose body holds the key \<^verbatim>\<open>faultstring\<close> with
  an empty string, and no \<^verbatim>\<open>faultcode\<close>, is returned as the payload. The test of line 68
  is on the truth value of \<^verbatim>\<open>response_json.get(...)\<close>, not on the presence of the key.
\<close>

theorem call_omie_api_falsy_fault_counterexample:
  "call_omie_api sample_settings
     (\<lambda>url body. Response 200 [] (Inr (JObj [(''faultstring'', JStr [])])))
     ''/geral/clientes/'' ''ListarClientes'' []
   = [(''faultstring'', JStr [])]"
  by (simp add: call_omie_api_def raise_for_status_def dict_get_def)

text \<open>
  C9, amended: when the body is a JSON object in which the value under \<^verbatim>\<open>faultstring\<close> or
  under \<^verbatim>\<open>faultcode\<close> is truthy, \<^verbatim>\<open>call_omie_api\<close> returns the uniform error object
  whatever the HTTP status: with the status code, and as message the body text for a
  status outside 2xx, else the value under \<^verbatim>\<open>faultstring\<close> (a fixed text when that key
  is absent).
\<close>

theorem call_omie_api_truthy_fault:
  assumes "post (omie_api_base_url cfg @ endpoint_path) (payload cfg call_name params)
             = Response status text (Inr (JObj response_json))"
    and "truthy (dict_get response_json ''faultstring'' JNull)
           \<or> truthy (dict_get response_json ''faultcode'' JNull)"
  shows "call_omie_api cfg post endpoint_path call_name params
           = error_dict (JInt status)
               (if raise_for_status status then JStr text
                else dict_get response_json ''faultstring'' (JStr msg_unknown_fault))"
  using assms by (simp add: call_omie_api_def)

theorem call_omie_api_truthy_fault_witness:
  "call_omie_api sample_settings
     (\<lambda>url body. Response 200 [] (Inr (JObj [(''faultcode'', JStr ''SOAP-ENV:Client-101'')])))
     ''/geral/clientes/'' ''ListarClientes'' []
   = error_dict (JInt 200) (JStr msg_unknown_fault)"
  using call_omie_api_truthy_fault
          [of "\<lambda>url body. Response 200 [] (Inr (JObj [(''faultcode'', JStr ''SOAP-ENV:Client-101'')]))"
              sample_settings "''/geral/clientes/''" "''ListarClientes''" "[]"
              200 "[]" "[(''faultcode'', JStr ''SOAP-ENV:Client-101'')]"]
  by (simp add: dict_get_def raise_for_status_def)

section \<open>The ordering of the orders\<close>

text \<open>The insertion sort on keys that are strings, written with list functions.\<close>

lemma str_lt_less: "str_lt a b \<longleftrightarrow> a < b"
  by (induction a b rule: str_lt.induct) (auto simp: less_char_def)


lemma insert_by_key_strings:
  "insert_by_key (apfst JStr x) (map (apfst JStr) ys)
     = Inr (map (apfst JStr) (takeWhile (\<lambda>y. \<not> fst x < fst y) ys @ x # dropWhile (\<lambda>y. \<not> fst x < fst y) ys))"
proof (cases x)
  case (Pair s p)
  show ?thesis unfolding Pair by (induction ys) (auto simp: str_lt_less)
qed

lemma sort_by_key_strings:
  "sort_by_key (map (apfst JStr) acc) (map (apfst JStr) xs)
     = Inr (map (apfst JStr) (foldl (\<lambda>acc x. takeWhile (\<lambda>y. \<not> fst x < fst y) acc @ x # dropWhile (\<lambda>y. \<not> fst x < fst y) acc) acc xs))"
proof (induction xs arbitrary: acc)
  case Nil
  show ?case by simp
next
  case (Cons x xs)
  show ?case using Cons.IH[of "takeWhile (\<lambda>y. \<not> fst x < fst y) acc @ x # dropWhile (\<lambda>y. \<not> fst x < fst y) acc"]
    by (simp add: insert_by_key_strings del: map_append)
qed

lemma ins_mset: "mset (takeWhile P acc @ x # dropWhile P acc) = add_mset x (mset acc)"
  by (metis add_mset_add_single mset.simps(2) mset_append takeWhile_dropWhile_id union_mset_add_mset_right)

lemma ins_sorted:
  fixes x :: "('k::linorder) \<times> 'a"
  assumes "sorted (map fst acc)"
  shows "sorted (map fst (takeWhile (\<lambda>y. \<not> fst x < fst y) acc @ x # dropWhile (\<lambda>y. \<not> fst x < fst y) acc))"
  using assms by (induction acc) (auto simp: not_less dest: set_takeWhileD set_dropWhileD)

lemma ins_stable:
  fixes x :: "('k::linorder) \<times> 'a"
  assumes "sorted (map fst acc)"
  shows "filter (\<lambda>y. fst y = k) (takeWhile (\<lambda>y. \<not> fst x < fst y) acc @ x # dropWhile (\<lambda>y. \<not> fst x < fst y) acc)
          = filter (\<lambda>y. fst y = k) acc @ filter (\<lambda>y. fst y = k) [x]"
  using assms
proof (induction acc)
  case Nil
  show ?case by simp
next
  case (Cons a acc)
  show ?case
  proof (cases "fst x < fst a")
    case False
    with Cons show ?thesis by auto
  next
    case True
    then have "\<forall>y \<in> set (a # acc). fst x < fst y" using Cons.prems by auto
    then have "filter (\<lambda>y. fst y = k) (a # acc) = []" if "fst x = k"
      using that by (auto simp: filter_empty_conv)
    with True show ?thesis by auto
  qed
qed


lemma fold_ins:
  fixes acc :: "(('k::linorder) \<times> 'a) list"
  assumes "sorted (map fst acc)"
  shows "sorted (map fst (foldl (\<lambda>acc x. takeWhile (\<lambda>y. \<not> fst x < fst y) acc @ x # dropWhile (\<lambda>y. \<not> fst x < fst y) acc) acc xs))
     \<and> mset (foldl (\<lambda>acc x. takeWhile (\<lambda>y. \<not> fst x < fst y) acc @ x # dropWhile (\<lambda>y. \<not> fst x < fst y) acc) acc xs) = mset acc + mset xs
     \<and> filter (\<lambda>y. fst y = k) (foldl (\<lambda>acc x. takeWhile (\<lambda>y. \<not> fst x < fst y) acc @ x # dropWhile (\<lambda>y. \<not> fst x < fst y) acc) acc xs)
         = filter (\<lambda>y. fst y = k) acc @ filter (\<lambda>y. fst y = k) xs"
  using assms
proof (induction xs arbitrary: acc)
  case Nil
  then show ?case by simp
next
  case (Cons x xs)
  let ?acc = "takeWhile (\<lambda>y. \<not> fst x < fst y) acc @ x # dropWhile (\<lambda>y. \<not> fst x < fst y) acc"
  have s: "sorted (map fst ?acc)" using Cons.prems by (rule ins_sorted)
  have m: "mset ?acc = add_mset x (mset acc)" by (rule ins_mset)
  have f: "filter (\<lambda>y. fst y = k) ?acc = filter (\<lambda>y. fst y = k) acc @ filter (\<lambda>y. fst y = k) [x]"
    using Cons.prems by (rule ins_stable)
  let ?r = "foldl (\<lambda>acc x. takeWhile (\<lambda>y. \<not> fst x < fst y) acc @ x # dropWhile (\<lambda>y. \<not> fst x < fst y) acc) ?acc xs"
  from Cons.IH[OF s] have A: "sorted (map fst ?r)"
    and B: "mset ?r = mset ?acc + mset xs"
    and C: "filter (\<lambda>y. fst y = k) ?r = filter (\<lambda>y. fst y = k) ?acc @ filter (\<lambda>y. fst y = k) xs"
    by blast+
  have B': "mset ?r = mset acc + mset (x # xs)" unfolding B m by simp
  have C': "filter (\<lambda>y. fst y = k) ?r = filter (\<lambda>y. fst y = k) acc @ filter (\<lambda>y. fst y = k) (x # xs)"
    unfolding C f by simp
  show ?case unfolding foldl_Cons using A B' C' by blast
qed

lemma map_exn_length: "map_exn f xs = Inr ys \<Longrightarrow> length ys = length xs"
  by (induction xs arbitrary: ys) (auto split: sum.splits)

lemma sorted_reverse_strings:
  assumes "map_exn f ps = Inr (map JStr ks)"
  shows "\<exists>kqs. sorted_reverse f ps = Inr (map snd kqs)
           \<and> mset kqs = mset (zip ks ps)
           \<and> sorted_wrt (\<lambda>a b. \<not> str_lt (fst a) (fst b)) kqs
           \<and> (\<forall>k. filter (\<lambda>x. fst x = k) kqs = filter (\<lambda>x. fst x = k) (zip ks ps))"
proof -
  let ?ins = "\<lambda>acc (x :: string \<times> 'a). takeWhile (\<lambda>y. \<not> fst x < fst y) acc @ x # dropWhile (\<lambda>y. \<not> fst x < fst y) acc"
  let ?r = "foldl ?ins [] (rev (zip ks ps))"
  have z: "rev (zip (map JStr ks) ps) = map (apfst JStr) (rev (zip ks ps))"
    by (simp add: zip_map1 rev_map apfst_def map_prod_def case_prod_beta)
  have srt: "sort_by_key [] (rev (zip (map JStr ks) ps)) = Inr (map (apfst JStr) ?r)"
    unfolding z using sort_by_key_strings[of "[]" "rev (zip ks ps)"] by simp
  have sr: "sorted_reverse f ps = Inr (map snd (rev ?r))"
    using assms srt by (simp add: sorted_reverse_def rev_map comp_def)
  have props: "sorted (map fst ?r)" "mset ?r = mset (rev (zip ks ps))"
    "\<And>k. filter (\<lambda>y. fst y = k) ?r = filter (\<lambda>y. fst y = k) (rev (zip ks ps))"
    using fold_ins[of "[]" "rev (zip ks ps)"] by simp_all
  have d: "sorted_wrt (\<lambda>a b. \<not> str_lt (fst a) (fst b)) (rev ?r)"
  proof -
    from props(1) have "sorted_wrt (\<lambda>a b. fst a \<le> fst b) ?r"
      by (simp add: sorted_wrt_map)
    then have "sorted_wrt (\<lambda>a b. fst b \<le> fst a) (rev ?r)"
      by (simp add: sorted_wrt_rev)
    then show ?thesis by (simp add: str_lt_less not_less)
  qed
  have st: "filter (\<lambda>x. fst x = k) (rev ?r) = filter (\<lambda>x. fst x = k) (zip ks ps)" for k
    using props(3)[of k] by (simp add: rev_filter[symmetric] del: rev_filter)
  from sr props(2) d st show ?thesis
    by (intro exI[of _ "rev ?r"]) simp
qed


lemma insert_by_key_mset:
  "insert_by_key x ys = Inr zs \<Longrightarrow> mset zs = add_mset x (mset ys)"
  by (induction ys arbitrary: zs) (auto split: sum.splits bool.splits)

lemma sort_by_key_mset:
  "sort_by_key acc xs = Inr r \<Longrightarrow> mset r = mset acc + mset xs"
  by (induction xs arbitrary: acc) (auto split: sum.splits dest!: insert_by_key_mset)

lemma sorted_reverse_mset:
  assumes "sorted_reverse f ps = Inr qs"
  shows "mset qs = mset ps"
proof -
  from assms obtain ks r where
    k: "map_exn f ps = Inr ks" "sort_by_key [] (rev (zip ks ps)) = Inr r" "qs = rev (map snd r)"
    by (auto simp: sorted_reverse_def split: sum.splits)
  from map_exn_length[OF k(1)] have "map snd (zip ks ps) = ps" by simp
  then have "mset ps = image_mset snd (mset (zip ks ps))" by (metis mset_map)
  also have "\<dots> = image_mset snd (mset r)" using sort_by_key_mset[OF k(2)] by simp
  finally show ?thesis using k(3) by simp
qed

text \<open>
  C7, as stated, fails: keys that are comparable need not be strings, and \<^verbatim>\<open>sorted\<close>
  compares them with \<^verbatim>\<open><\<close> of their own type. Two orders numbered by the integers 9 and 10
  are sorted without an exception, numerically, so the order numbered 10 comes before the
  order numbered 9, whereas as tokens \<^verbatim>\<open>10\<close> is below \<^verbatim>\<open>9\<close> and the order numbered 9 would come
  first.
\<close>

theorem integer_keys_sort_numerically_counterexample:
  "map_exn numero_pedido_key [pedido_numero 9, pedido_numero 10] = Inr [JInt 9, JInt 10]
   \<and> sorted_reverse numero_pedido_key [pedido_numero 9, pedido_numero 10]
       = Inr [pedido_numero 10, pedido_numero 9]
   \<and> pedidos_ordenados (JList [pedido_numero 9, pedido_numero 10])
       = JList [pedido_numero 10, pedido_numero 9]
   \<and> recent_orders (JList [pedido_numero 9, pedido_numero 10])
       = Inr (JList [pedido_numero 10, pedido_numero 9])
   \<and> str_lt ''10'' ''9''"
  by code_simp

text \<open>
  C7, amended: the sorting step of lines 242 to 250 never raises. For every list of orders the
  result is a list with the same orders and the first three are taken from it; when \<^verbatim>\<open>sorted\<close> raises, the
  result is the upstream list unchanged; when every key is a string, the result is the
  upstream list rearranged so that the keys descend in the order of \<open>str_lt\<close>, the
  lexicographic order of the code points (so the order numbered 9 comes before the order
  numbered 10), orders with equal keys staying in upstream order. When \<^verbatim>\<open>ListarPedidos\<close>
  answers with a non-empty list of orders, the summaries returned are those of the first
  three orders of that result.
\<close>

theorem pedidos_sorted_descending_or_unchanged:
  "(\<exists>qs. pedidos_ordenados (JList ps) = JList qs \<and> mset qs = mset ps
          \<and> recent_orders (JList ps) = Inr (JList (take 3 qs)))
   \<and> (sorted_reverse numero_pedido_key ps = Inl e
        \<longrightarrow> pedidos_ordenados (JList ps) = JList ps)
   \<and> (map_exn numero_pedido_key ps = Inr (map JStr ks)
        \<longrightarrow> (\<exists>kqs. pedidos_ordenados (JList ps) = JList (map snd kqs)
                  \<and> mset kqs = mset (zip ks ps)
                  \<and> sorted_wrt (\<lambda>a b. \<not> str_lt (fst a) (fst b)) kqs
                  \<and> (\<forall>k. filter (\<lambda>x. fst x = k) kqs = filter (\<lambda>x. fst x = k) (zip ks ps))))
   \<and> (\<not> truthy (dict_get (call_omie_api cfg post ''/produtos/pedido/'' ''ListarPedidos''
                               [listar_pedidos_params cid]) ''error'' JNull)
        \<and> dict_get (call_omie_api cfg post ''/produtos/pedido/'' ''ListarPedidos''
                       [listar_pedidos_params cid]) ''pedido_venda_produto'' JNull = JList ps
        \<and> ps \<noteq> []
        \<longrightarrow> (\<exists>qs. pedidos_ordenados (JList ps) = JList qs
                 \<and> pedidos_do_cliente cfg post cid
                     = (case map_exn format_order (take 3 qs) of
                          Inl e \<Rightarrow> Inl e
                        | Inr [] \<Rightarrow> Inr (Message (NoPedidosProcessed cid))
                        | Inr formatted_orders \<Rightarrow> Inr (Orders formatted_orders))))"
proof (intro conjI impI)
  show "\<exists>qs. pedidos_ordenados (JList ps) = JList qs \<and> mset qs = mset ps
          \<and> recent_orders (JList ps) = Inr (JList (take 3 qs))"
    by (cases "sorted_reverse numero_pedido_key ps")
       (simp_all add: pedidos_ordenados_def recent_orders_def sorted_reverse_mset)
next
  assume "sorted_reverse numero_pedido_key ps = Inl e"
  then show "pedidos_ordenados (JList ps) = JList ps"
    by (simp add: pedidos_ordenados_def)
next
  assume "map_exn numero_pedido_key ps = Inr (map JStr ks)"
  from sorted_reverse_strings[OF this] obtain kqs where
    k: "sorted_reverse numero_pedido_key ps = Inr (map snd kqs)"
       "mset kqs = mset (zip ks ps)"
       "sorted_wrt (\<lambda>a b. \<not> str_lt (fst a) (fst b)) kqs"
       "\<forall>k. filter (\<lambda>x. fst x = k) kqs = filter (\<lambda>x. fst x = k) (zip ks ps)"
    by blast
  from k(1) have "pedidos_ordenados (JList ps) = JList (map snd kqs)"
    by (simp add: pedidos_ordenados_def)
  with k(2,3,4) show "\<exists>kqs. pedidos_ordenados (JList ps) = JList (map snd kqs)
                  \<and> mset kqs = mset (zip ks ps)
                  \<and> sorted_wrt (\<lambda>a b. \<not> str_lt (fst a) (fst b)) kqs
                  \<and> (\<forall>k. filter (\<lambda>x. fst x = k) kqs = filter (\<lambda>x. fst x = k) (zip ks ps))"
    by blast
next
  let ?resp = "call_omie_api cfg post ''/produtos/pedido/'' ''ListarPedidos''
                 [listar_pedidos_params cid]"
  assume a: "\<not> truthy (dict_get ?resp ''error'' JNull)
             \<and> dict_get ?resp ''pedido_venda_produto'' JNull = JList ps \<and> ps \<noteq> []"
  obtain qs where qs: "pedidos_ordenados (JList ps) = JList qs"
    by (cases "sorted_reverse numero_pedido_key ps") (simp_all add: pedidos_ordenados_def)
  have "pedidos_do_cliente cfg post cid
          = (case map_exn format_order (take 3 qs) of
               Inl e \<Rightarrow> Inl e
             | Inr [] \<Rightarrow> Inr (Message (NoPedidosProcessed cid))
             | Inr formatted_orders \<Rightarrow> Inr (Orders formatted_orders))"
    using a qs by (simp add: pedidos_do_cliente_def Let_def recent_orders_def)
  with qs show "\<exists>qs. pedidos_ordenados (JList ps) = JList qs
                 \<and> pedidos_do_cliente cfg post cid
                     = (case map_exn format_order (take 3 qs) of
                          Inl e \<Rightarrow> Inl e
                        | Inr [] \<Rightarrow> Inr (Message (NoPedidosProcessed cid))
                        | Inr formatted_orders \<Rightarrow> Inr (Orders formatted_orders))"
    by blast
qed

theorem pedidos_sorted_descending_or_unchanged_witness:
  "map_exn numero_pedido_key [pedido ''10'', pedido ''9''] = Inr (map JStr [''10'', ''9''])
   \<and> (\<exists>kqs. pedidos_ordenados (JList [pedido ''10'', pedido ''9'']) = JList (map snd kqs)
          \<and> mset kqs = mset (zip [''10'', ''9''] [pedido ''10'', pedido ''9''])
          \<and> sorted_wrt (\<lambda>a b. \<not> str_lt (fst a) (fst b)) kqs)
   \<and> pedidos_ordenados (JList [pedido ''10'', pedido ''9'']) = JList [pedido ''9'', pedido ''10'']
   \<and> recent_orders (JList [pedido ''10'', pedido ''9'']) = Inr (JList [pedido ''9'', pedido ''10''])
   \<and> sorted_reverse numero_pedido_key [pedido ''10'', JNull] = Inl AttributeError
   \<and> pedidos_ordenados (JList [pedido ''10'', JNull]) = JList [pedido ''10'', JNull]
   \<and> pedidos_do_cliente sample_settings
       (sample_api (\<lambda>p. page (JInt 1) [])
          [pedido ''10'', pedido ''9'', pedido ''7'', pedido ''8''])
       (JInt 1)
     = Inr (Orders [summary ''9'', summary ''8'', summary ''7''])"
proof -
  have h: "map_exn numero_pedido_key [pedido ''10'', pedido ''9''] = Inr (map JStr [''10'', ''9''])"
    by code_simp
  have f: "sorted_reverse numero_pedido_key [pedido ''10'', JNull] = Inl AttributeError"
    by code_simp
  from pedidos_sorted_descending_or_unchanged
         [of "[pedido ''10'', pedido ''9'']" AttributeError "[''10'', ''9'']"] h
  have 1: "\<exists>kqs. pedidos_ordenados (JList [pedido ''10'', pedido ''9'']) = JList (map snd kqs)
          \<and> mset kqs = mset (zip [''10'', ''9''] [pedido ''10'', pedido ''9''])
          \<and> sorted_wrt (\<lambda>a b. \<not> str_lt (fst a) (fst b)) kqs"
    by blast
  from pedidos_sorted_descending_or_unchanged [of "[pedido ''10'', JNull]" AttributeError "[]"] f
  have 2: "pedidos_ordenados (JList [pedido ''10'', JNull]) = JList [pedido ''10'', JNull]"
    by blast
  have 3: "pedidos_ordenados (JList [pedido ''10'', pedido ''9'']) = JList [pedido ''9'', pedido ''10'']"
    by code_simp
  have 4: "recent_orders (JList [pedido ''10'', pedido ''9'']) = Inr (JList [pedido ''9'', pedido ''10''])"
    by code_simp
  have 5: "pedidos_do_cliente sample_settings
       (sample_api (\<lambda>p. page (JInt 1) [])
          [pedido ''10'', pedido ''9'', pedido ''7'', pedido ''8''])
       (JInt 1)
     = Inr (Orders [summary ''9'', summary ''8'', summary ''7''])"
    by code_simp
  from h 1 2 3 4 5 f show ?thesis by blast
qed

section \<open>The reply between fences\<close>

lemma lstrip_spaces: "list_all is_space a \<Longrightarrow> lstrip (a @ s) = lstrip s"
  by (induction a) (auto simp: lstrip_def)

lemma rstrip_spaces: "list_all is_space d \<Longrightarrow> rstrip (s @ d) = rstrip s"
  by (simp add: rstrip_def dropWhile_append list_all_iff)

lemma strip_spaces:
  assumes "list_all is_space a" "list_all is_space d"
  shows "strip (a @ s @ d) = strip s"
proof (cases "list_all is_space s")
  case True
  then have "list_all is_space (a @ s @ d)" using assms by simp
  then have "lstrip (a @ s @ d) = []" unfolding lstrip_def list_all_iff by simp
  moreover from True have "lstrip s = []" unfolding lstrip_def list_all_iff by simp
  ultimately show ?thesis by (simp add: strip_def)
next
  case False
  have "lstrip (a @ s @ d) = lstrip (s @ d)" using assms(1) by (rule lstrip_spaces)
  also have "\<dots> = lstrip s @ d" using False
    by (auto simp: lstrip_def dropWhile_append list_all_iff)
  finally show ?thesis using assms(2) by (simp add: strip_def rstrip_spaces)
qed

lemma strip_unchanged:
  assumes "s \<noteq> []" "\<not> is_space (hd s)" "\<not> is_space (last s)"
  shows "strip s = s"
proof -
  from assms have l: "lstrip s = s" by (cases s) (auto simp: lstrip_def)
  from assms have "dropWhile is_space (rev s) = rev s"
    by (cases "rev s") (auto simp: last_rev[symmetric] simp del: last_rev)
  then show ?thesis by (simp add: strip_def l rstrip_def)
qed

lemma startswith_append: "startswith (p @ s) p"
  by (induction p) auto

lemma not_space_fence: "\<not> is_space (CHR 0x60)"
  by (simp add: is_space_def)


lemma startswith_same_prefix: "startswith (p @ s) (p @ q) = startswith s q"
  by (induction p) auto

lemma rstrip_prefix: "\<exists>t. u = rstrip u @ t"
proof -
  have "rev u = takeWhile is_space (rev u) @ dropWhile is_space (rev u)" by simp
  then have "u = rev (dropWhile is_space (rev u)) @ rev (takeWhile is_space (rev u))"
    by (metis rev_append rev_rev_ident)
  then show ?thesis unfolding rstrip_def by blast
qed

lemma object_text_shape:
  assumes "startswith (strip J) ''{''"
  shows "\<exists>ws t. list_all is_space ws \<and> J = ws @ CHR ''{'' # t"
proof -
  from assms obtain r where r: "strip J = CHR ''{'' # r"
    by (cases "strip J") auto
  obtain t where "lstrip J = strip J @ t"
    using rstrip_prefix[of "lstrip J"] unfolding strip_def by blast
  with r have "dropWhile is_space J = CHR ''{'' # (r @ t)" by (simp add: lstrip_def)
  then have "J = takeWhile is_space J @ CHR ''{'' # (r @ t)"
    by (metis takeWhile_dropWhile_id)
  moreover have "list_all is_space (takeWhile is_space J)"
    by (auto simp: list_all_iff dest: set_takeWhileD)
  ultimately show ?thesis by blast
qed

lemma no_label_after_spaces:
  assumes "list_all is_space ws"
  shows "\<not> startswith (ws @ CHR ''{'' # t) ''json''"
  using assms by (cases ws) (auto simp: is_space_def)

lemma extract_plain:
  assumes "startswith (strip J) ''{''"
  shows "extract_json_text J = strip J"
  using assms by (cases "strip J") (auto simp: extract_json_text_def fence_def)

lemma extract_labelled:
  assumes "list_all is_space a" "list_all is_space b" "list_all is_space c" "list_all is_space d"
  shows "extract_json_text (a @ fence @ ''json'' @ b @ J @ c @ fence @ d) = strip J"
proof -
  let ?X = "(fence @ ''json'') @ (b @ J @ c) @ fence"
  have "strip (a @ ?X @ d) = strip ?X" using assms(1,4) by (rule strip_spaces)
  also have "\<dots> = ?X" by (rule strip_unchanged) (simp_all add: fence_def is_space_def)
  finally have s: "strip (a @ fence @ ''json'' @ b @ J @ c @ fence @ d) = ?X" by simp
  have p: "startswith ?X (fence @ ''json'')"
    using startswith_append[of "fence @ ''json''" "(b @ J @ c) @ fence"] by simp
  have "slice_between 7 3 ?X = b @ J @ c"
    by (simp add: slice_between_def fence_def)
  then show ?thesis unfolding extract_json_text_def s using p strip_spaces[OF assms(2,3)]
    by simp
qed

lemma extract_unlabelled:
  assumes "startswith (strip J) ''{''"
    and "list_all is_space a" "list_all is_space b" "list_all is_space c" "list_all is_space d"
  shows "extract_json_text (a @ fence @ b @ J @ c @ fence @ d) = strip J"
proof -
  let ?X = "fence @ (b @ J @ c) @ fence"
  have "strip (a @ ?X @ d) = strip ?X" using assms(2,5) by (rule strip_spaces)
  also have "\<dots> = ?X" by (rule strip_unchanged) (simp_all add: fence_def is_space_def)
  finally have s: "strip (a @ fence @ b @ J @ c @ fence @ d) = ?X" by simp
  from object_text_shape[OF assms(1)] obtain ws t where
    J: "list_all is_space ws" "J = ws @ CHR ''{'' # t" by blast
  have "\<not> startswith ((b @ ws) @ CHR ''{'' # (t @ c @ fence)) ''json''"
    using assms(3) J(1) by (intro no_label_after_spaces) simp
  then have "\<not> startswith (fence @ (b @ J @ c) @ fence) (fence @ ''json'')"
    unfolding startswith_same_prefix by (simp add: J(2))
  then have n: "\<not> startswith ?X (fence @ ''json'')" .
  have p: "startswith ?X fence" using startswith_append[of fence "(b @ J @ c) @ fence"] by simp
  have "slice_between 3 3 ?X = b @ J @ c"
    by (simp add: slice_between_def fence_def)
  then show ?thesis unfolding extract_json_text_def s using n p strip_spaces[OF assms(3,4)]
    by simp
qed

text \<open>
  C8, as stated, fails: the only language label that line 331 knows is \<^verbatim>\<open>json\<close> in lower
  case. With the label \<^verbatim>\<open>JSON\<close> the second branch cuts three characters, the label stays
  in the text handed to \<^verbatim>\<open>json.loads\<close>, and the reply is not understood, while the
  unwrapped reply parses. (The parser here is \<^verbatim>\<open>json.loads\<close> on the two texts concerned.)
\<close>

theorem fenced_json_reply_counterexample:
  "extract_json_text (fence @ ''JSON'' @ [CHR 10] @ ''{}'' @ [CHR 10] @ fence)
     = ''JSON'' @ [CHR 10] @ ''{}''
   \<and> extract_json_text ''{}'' = ''{}''
   \<and> analyse (gemini_says (fence @ ''JSON'' @ [CHR 10] @ ''{}'' @ [CHR 10] @ fence))
        (\<lambda>text. if text = ''{}'' then Inr (JObj []) else Inl JSONDecodeError) ''Quais pedidos?''
     = Inl (Inr NotUnderstood)
   \<and> analyse (gemini_says ''{}'')
        (\<lambda>text. if text = ''{}'' then Inr (JObj []) else Inl JSONDecodeError) ''Quais pedidos?''
     = Inr (JObj [])"
  by code_simp

text \<open>
  C8, amended: for every text \<open>J\<close> whose first character after white space is an opening
  brace, a reply that is \<open>J\<close> between a fence labelled \<^verbatim>\<open>json\<close>, or a fence without
  label, and a closing fence, with any white space around the fences and around \<open>J\<close>,
  gives \<^verbatim>\<open>json.loads\<close> the same text as the reply \<open>J\<close>, hence the same parsed data
  whatever the parser does.
\<close>

theorem fenced_json_reply:
  assumes "startswith (strip J) ''{''"
    and "list_all is_space a" "list_all is_space b" "list_all is_space c" "list_all is_space d"
  shows "extract_json_text (a @ fence @ ''json'' @ b @ J @ c @ fence @ d) = extract_json_text J
       \<and> extract_json_text (a @ fence @ b @ J @ c @ fence @ d) = extract_json_text J
       \<and> analyse (gemini_says (a @ fence @ ''json'' @ b @ J @ c @ fence @ d)) loads pergunta
           = analyse (gemini_says J) loads pergunta
       \<and> analyse (gemini_says (a @ fence @ b @ J @ c @ fence @ d)) loads pergunta
           = analyse (gemini_says J) loads pergunta"
  using extract_labelled[OF assms(2-5), of J] extract_unlabelled[OF assms, of] extract_plain[OF assms(1)]
  by (simp add: analyse_def gemini_says_def)

theorem fenced_json_reply_witness:
  "startswith (strip '' {} '') ''{''
   \<and> extract_json_text (fence @ ''json'' @ [CHR 10] @ '' {} '' @ [CHR 10] @ fence @ [CHR 10])
       = ''{}''
   \<and> extract_json_text (fence @ [CHR 10] @ '' {} '' @ [CHR 10] @ fence @ [CHR 10])
       = ''{}''
   \<and> extract_json_text '' {} '' = ''{}''"
proof -
  have h: "startswith (strip '' {} '') ''{''" by code_simp
  have sp: "list_all is_space []" "list_all is_space [CHR 10]" by code_simp+
  have e: "extract_json_text '' {} '' = ''{}''" by code_simp
  from fenced_json_reply[OF h sp(1) sp(2) sp(2) sp(2), of "\<lambda>text. Inl JSONDecodeError" "[]"] e h
  show ?thesis by simp
qed

section \<open>The scan when no tax id is compared\<close>

text \<open>When the normalized tax id is falsy, the loop over a page only collects name
  matches: the customer stays unset, and every collected match is an object.\<close>

lemma scan_page_without_cnpj:
  assumes "\<not> truthy normalized"
    and "scan_page cnpj_cpf normalized nome_fantasia cs st = Continues st'"
  shows "customer_id st' = customer_id st
       \<and> found_customer_details st' = found_customer_details st
       \<and> (\<exists>ms. possible_matches_by_name st' = possible_matches_by_name st @ ms
                \<and> (\<forall>m \<in> set ms. \<exists>r. m = JObj r)
                \<and> (ms \<noteq> [] \<longrightarrow> truthy nome_fantasia))"
  using assms
proof (induction cs arbitrary: st)
  case Nil
  then show ?case by simp
next
  case (Cons c cs)
  from Cons.prems obtain r where c: "c = JObj r"
    by (cases c) auto
  from Cons.prems c obtain d where d: "only_digits (dict_get r ''cnpj_cpf'' (JStr [])) = Inr d"
    by (auto split: sum.splits)
  show ?case
  proof (cases "truthy nome_fantasia")
    case False
    with Cons.prems c d have "scan_page cnpj_cpf normalized nome_fantasia cs st = Continues st'"
      by simp
    from Cons.IH[OF Cons.prems(1) this] show ?thesis .
  next
    case True
    with Cons.prems c d obtain b where
      b: "name_matches nome_fantasia (dict_get r ''nome_fantasia'' (JStr [])) = Inr b"
      by (auto split: sum.splits)
    show ?thesis
    proof (cases b)
      case False
      with Cons.prems c d b True
      have "scan_page cnpj_cpf normalized nome_fantasia cs st = Continues st'" by simp
      from Cons.IH[OF Cons.prems(1) this] show ?thesis .
    next
      case bt: True
      let ?st = "st\<lparr>possible_matches_by_name := possible_matches_by_name st @ [c]\<rparr>"
      from Cons.prems c d b True bt
      have "scan_page cnpj_cpf normalized nome_fantasia cs ?st = Continues st'" by simp
      from Cons.IH[OF Cons.prems(1) this] obtain ms where
        "customer_id st' = customer_id st"
        "found_customer_details st' = found_customer_details st"
        "possible_matches_by_name st' = (possible_matches_by_name st @ [c]) @ ms"
        "\<forall>m \<in> set ms. \<exists>r. m = JObj r"
        by auto
      then show ?thesis using c True
        by (intro conjI exI[of _ "c # ms"]) auto
    qed
  qed
qed

lemma scan_page_never_returns_without_cnpj:
  assumes "\<not> truthy normalized"
  shows "scan_page cnpj_cpf normalized nome_fantasia cs st \<noteq> Returns m"
  using assms
  by (induction cs arbitrary: st) (auto split: json.splits sum.splits bool.splits)


lemma page_body_without_cnpj:
  assumes "\<not> truthy normalized" "\<not> truthy (customer_id st)"
  shows "page_body cnpj_cpf normalized nome_fantasia current_page total_pages st resp = Again tp' st'
           \<Longrightarrow> customer_id st' = customer_id st
               \<and> found_customer_details st' = found_customer_details st
               \<and> (\<exists>ms. possible_matches_by_name st' = possible_matches_by_name st @ ms
                        \<and> (\<forall>m \<in> set ms. \<exists>r. m = JObj r)
                        \<and> (ms \<noteq> [] \<longrightarrow> truthy nome_fantasia))"
    and "page_body cnpj_cpf normalized nome_fantasia current_page total_pages st resp
           \<noteq> Stop (Continues st')"
    and "page_body cnpj_cpf normalized nome_fantasia current_page total_pages st resp = Stop (Returns m)
           \<Longrightarrow> (\<exists>p text. m = ClienteSearchError p text) \<or> m = NotFoundFirstPage"
proof -
  define cad where "cad = dict_get resp ''clientes_cadastro'' JNull"
  define inner where
    "inner = (if truthy cad
              then (case py_iter cad of
                      Inl e \<Rightarrow> Raises e
                    | Inr clientes \<Rightarrow> scan_page cnpj_cpf normalized nome_fantasia clientes st)
              else Continues st)"
  have keep: "customer_id s = customer_id st
               \<and> found_customer_details s = found_customer_details st
               \<and> (\<exists>ms. possible_matches_by_name s = possible_matches_by_name st @ ms
                        \<and> (\<forall>m \<in> set ms. \<exists>r. m = JObj r)
                        \<and> (ms \<noteq> [] \<longrightarrow> truthy nome_fantasia))"
    if "inner = Continues s" for s
  proof (cases "truthy cad")
    case False
    with that show ?thesis by (simp add: inner_def)
  next
    case True
    with that obtain cs where "scan_page cnpj_cpf normalized nome_fantasia cs st = Continues s"
      by (auto simp: inner_def split: sum.splits)
    from scan_page_without_cnpj[OF assms(1) this] show ?thesis .
  qed
  have noret: "inner \<noteq> Returns m" for m
    using scan_page_never_returns_without_cnpj[OF assms(1)]
    by (auto simp: inner_def split: sum.splits)
  have pb: "page_body cnpj_cpf normalized nome_fantasia current_page total_pages st resp =
     (if truthy (dict_get resp ''error'' JNull) then
        Stop (Returns (ClienteSearchError current_page
                (dict_get resp ''message'' (JStr msg_unknown_api))))
      else
        (case inner of
              Raises e \<Rightarrow> Stop (Raises e)
            | Returns m \<Rightarrow> Stop (Returns m)
            | Continues st' \<Rightarrow>
                (if truthy cad \<and> truthy (customer_id st')
                 then Stop (Continues st')
                 else if \<not> truthy cad \<and> current_page = 1
                         \<and> py_eq (if current_page = 1
                                  then dict_get resp ''total_de_paginas'' (JInt 1)
                                  else total_pages) (JInt 1)
                 then Stop (Returns NotFoundFirstPage)
                 else (case int_gt (current_page + 1)
                              (if current_page = 1
                               then dict_get resp ''total_de_paginas'' (JInt 1)
                               else total_pages) of
                         Inl e \<Rightarrow> Stop (Raises e)
                       | Inr b \<Rightarrow> Again (if current_page = 1
                                          then dict_get resp ''total_de_paginas'' (JInt 1)
                                          else total_pages) st'))))"
    unfolding page_body_def Let_def inner_def cad_def by simp
  show "page_body cnpj_cpf normalized nome_fantasia current_page total_pages st resp = Again tp' st'
           \<Longrightarrow> customer_id st' = customer_id st
               \<and> found_customer_details st' = found_customer_details st
               \<and> (\<exists>ms. possible_matches_by_name st' = possible_matches_by_name st @ ms
                        \<and> (\<forall>m \<in> set ms. \<exists>r. m = JObj r)
                        \<and> (ms \<noteq> [] \<longrightarrow> truthy nome_fantasia))"
  proof -
    assume "page_body cnpj_cpf normalized nome_fantasia current_page total_pages st resp = Again tp' st'"
    then have "inner = Continues st'"
      unfolding pb by (cases inner) (auto split: if_splits sum.splits)
    then show "customer_id st' = customer_id st
               \<and> found_customer_details st' = found_customer_details st
               \<and> (\<exists>ms. possible_matches_by_name st' = possible_matches_by_name st @ ms
                        \<and> (\<forall>m \<in> set ms. \<exists>r. m = JObj r)
                        \<and> (ms \<noteq> [] \<longrightarrow> truthy nome_fantasia))" by (rule keep)
  qed
  show "page_body cnpj_cpf normalized nome_fantasia current_page total_pages st resp
           \<noteq> Stop (Continues st')"
  proof
    assume "page_body cnpj_cpf normalized nome_fantasia current_page total_pages st resp
              = Stop (Continues st')"
    then have "inner = Continues st' \<and> truthy (customer_id st')"
      unfolding pb by (cases inner) (auto split: if_splits sum.splits)
    with keep[of st'] assms(2) show False by simp
  qed
  show "page_body cnpj_cpf normalized nome_fantasia current_page total_pages st resp = Stop (Returns m)
           \<Longrightarrow> (\<exists>p text. m = ClienteSearchError p text) \<or> m = NotFoundFirstPage"
    unfolding pb using noret
    by (cases inner) (auto split: if_splits sum.splits)
qed

lemma scan_directory_without_cnpj:
  assumes "\<not> truthy normalized" "\<not> truthy (customer_id st)"
  shows "(\<forall>st'. fst (scan_directory listar cnpj_cpf normalized nome_fantasia current_page total_pages st)
                 = Continues st'
            \<longrightarrow> customer_id st' = customer_id st
                \<and> found_customer_details st' = found_customer_details st
                \<and> (\<exists>ms. possible_matches_by_name st' = possible_matches_by_name st @ ms
                         \<and> (\<forall>m \<in> set ms. \<exists>r. m = JObj r)
                         \<and> (ms \<noteq> [] \<longrightarrow> truthy nome_fantasia)))
       \<and> (\<forall>m. fst (scan_directory listar cnpj_cpf normalized nome_fantasia current_page total_pages st)
                 = Returns m
            \<longrightarrow> (\<exists>p text. m = ClienteSearchError p text) \<or> m = NotFoundFirstPage)"
  using assms
proof (induction listar cnpj_cpf normalized nome_fantasia current_page total_pages st
       rule: scan_directory.induct)
  case (1 listar cnpj_cpf normalized nome_fantasia current_page total_pages st)
  let ?body = "page_body cnpj_cpf normalized nome_fantasia current_page total_pages st
                 (listar current_page)"
  show ?case
  proof (cases "int_le current_page total_pages")
    case (Inl e)
    then show ?thesis by (subst scan_directory.simps, simp)+
  next
    case (Inr b)
    show ?thesis
    proof (cases b)
      case False
      with Inr show ?thesis by (subst scan_directory.simps, simp)+
    next
      case True
      then have bT: "b = True" by simp
      show ?thesis
      proof (cases ?body)
        case (Stop r)
        have eq: "scan_directory listar cnpj_cpf normalized nome_fantasia current_page total_pages st
                    = (r, [current_page])"
          using Inr True Stop "1.prems"(2) by (subst scan_directory.simps) simp
        show ?thesis unfolding eq
          using page_body_without_cnpj(2,3)[OF "1.prems", of cnpj_cpf nome_fantasia current_page
                  total_pages "listar current_page"] Stop
          by auto
      next
        case (Again tp' st1)
        have eq: "scan_directory listar cnpj_cpf normalized nome_fantasia current_page total_pages st
                    = apsnd ((#) current_page)
                        (scan_directory listar cnpj_cpf normalized nome_fantasia
                           (current_page + 1) tp' st1)"
          using Inr True Again "1.prems"(2) by (subst scan_directory.simps) simp
        from page_body_without_cnpj(1)[OF "1.prems" Again] obtain ms where
          k: "customer_id st1 = customer_id st"
             "found_customer_details st1 = found_customer_details st"
             "possible_matches_by_name st1 = possible_matches_by_name st @ ms"
             "\<forall>m \<in> set ms. \<exists>r. m = JObj r" "ms \<noteq> [] \<longrightarrow> truthy nome_fantasia"
          by blast
        from k(1) "1.prems"(2) have c1: "\<not> truthy (customer_id st1)" by simp
        note IH = "1.IH"[OF Inr bT "1.prems"(2) Again "1.prems"(1) c1]
        show ?thesis unfolding eq
        proof (rule conjI; rule allI; rule impI)
          fix st'
          assume "fst (apsnd ((#) current_page)
                        (scan_directory listar cnpj_cpf normalized nome_fantasia
                           (current_page + 1) tp' st1)) = Continues st'"
          then have "fst (scan_directory listar cnpj_cpf normalized nome_fantasia
                           (current_page + 1) tp' st1) = Continues st'" by simp
          with IH obtain ms' where
            k': "customer_id st' = customer_id st1"
                "found_customer_details st' = found_customer_details st1"
                "possible_matches_by_name st' = possible_matches_by_name st1 @ ms'"
                "\<forall>m \<in> set ms'. \<exists>r. m = JObj r" "ms' \<noteq> [] \<longrightarrow> truthy nome_fantasia"
            by blast
          show "customer_id st' = customer_id st
                \<and> found_customer_details st' = found_customer_details st
                \<and> (\<exists>ms. possible_matches_by_name st' = possible_matches_by_name st @ ms
                         \<and> (\<forall>m \<in> set ms. \<exists>r. m = JObj r)
                         \<and> (ms \<noteq> [] \<longrightarrow> truthy nome_fantasia))"
            using k k' by (intro conjI exI[of _ "ms @ ms'"]) auto
        next
          fix m
          assume "fst (apsnd ((#) current_page)
                        (scan_directory listar cnpj_cpf normalized nome_fantasia
                           (current_page + 1) tp' st1)) = Returns m"
          then have "fst (scan_directory listar cnpj_cpf normalized nome_fantasia
                           (current_page + 1) tp' st1) = Returns m" by simp
          with IH show "(\<exists>p text. m = ClienteSearchError p text) \<or> m = NotFoundFirstPage"
            by blast
        qed
      qed
    qed
  qed
qed


lemma dict_set_keys:
  "map fst (dict_set k v d) = (if k \<in> set (map fst d) then map fst d else map fst d @ [k])"
  by (induction d) auto

lemma unique_names_from_objects:
  assumes "\<forall>m \<in> set ms. \<exists>r. m = JObj r" "distinct (map fst d)"
  shows "\<exists>d'. unique_names_from d ms = Inr d' \<and> distinct (map fst d')
             \<and> Inr ` set (map fst d') = Inr ` set (map fst d) \<union> match_name ` set ms"
  using assms
proof (induction ms arbitrary: d)
  case Nil
  then show ?case by simp
next
  case (Cons m ms)
  from Cons.prems(1) obtain r where m: "m = JObj r" by auto
  let ?k = "dict_get r ''nome_fantasia'' JNull"
  have mn: "match_name m = Inr ?k" by (simp add: match_name_def m)
  have dd: "distinct (map fst (dict_set ?k m d))"
    using Cons.prems(2) by (simp add: dict_set_keys)
  have ks: "set (map fst (dict_set ?k m d)) = insert ?k (set (map fst d))"
    by (auto simp: dict_set_keys)
  from Cons.prems(1) have "\<forall>m \<in> set ms. \<exists>r. m = JObj r" by simp
  from Cons.IH[OF this dd] obtain d' where
    d': "unique_names_from (dict_set ?k m d) ms = Inr d'" "distinct (map fst d')"
        "Inr ` set (map fst d') = Inr ` set (map fst (dict_set ?k m d)) \<union> match_name ` set ms"
    by blast
  have "unique_names_from d (m # ms) = Inr d'" using d'(1) mn by simp
  moreover have "Inr ` set (map fst d') = Inr ` set (map fst d) \<union> match_name ` set (m # ms)"
    unfolding d'(3) ks using mn by auto
  ultimately show ?case using d'(2) by blast
qed

lemma unique_names_length:
  assumes "\<forall>m \<in> set ms. \<exists>r. m = JObj r"
  shows "\<exists>d. unique_names ms = Inr d \<and> length d = card (match_name ` set ms)"
proof -
  from unique_names_from_objects[OF assms, of "[]"] obtain d where
    d: "unique_names ms = Inr d" "distinct (map fst d)"
       "Inr ` set (map fst d) = match_name ` set ms"
    by (auto simp: unique_names_def)
  have "card (match_name ` set ms) = card ((Inr :: json \<Rightarrow> exn + json) ` set (map fst d))"
    by (simp only: d(3))
  also have "\<dots> = card (set (map fst d))" by (rule card_image) simp
  also have "\<dots> = length d" using distinct_card[OF d(2)] by simp
  finally show ?thesis using d(1) by simp
qed

text \<open>
  C5: in a resolution by name alone (a name given, the tax id absent or empty), when the
  scan has run to its end and the matches it collected over all pages have two or more
  distinct display names, the resolution fails with the ambiguous-name text, and the
  count in the text is the number of distinct display names among the matches. The
  display name of a match is \<^verbatim>\<open>match.get("nome_fantasia")\<close>, as on line 195.
\<close>

theorem distinct_names_are_ambiguous:
  assumes "\<not> truthy cnpj_cpf" and "truthy nome_fantasia"
    and "scan_directory (listar_clientes cfg post JNull nome_fantasia cidade)
           cnpj_cpf JNull nome_fantasia 1 (JInt 1) no_match = (Continues st, pages)"
    and "2 \<le> card (match_name ` set (possible_matches_by_name st))"
  shows "find_customer cfg post cnpj_cpf nome_fantasia cidade
           = (Returns (MultipleNames (card (match_name ` set (possible_matches_by_name st)))
                         nome_fantasia), pages)
       \<and> encontrar_pedidos_cliente cfg post cnpj_cpf nome_fantasia cidade
           = Inr (Message (MultipleNames (card (match_name ` set (possible_matches_by_name st)))
                             nome_fantasia))"
proof -
  let ?ms = "possible_matches_by_name st"
  have n: "normalize_input cnpj_cpf = Inr JNull" using assms(1) by (simp add: normalize_input_def)
  from scan_directory_without_cnpj[of JNull no_match "listar_clientes cfg post JNull nome_fantasia cidade"
         cnpj_cpf nome_fantasia 1 "JInt 1"] assms(3)
  have inv: "customer_id st = JNull" "\<forall>m \<in> set ?ms. \<exists>r. m = JObj r"
    by (auto simp: no_match_def)
  from unique_names_length[OF inv(2)] obtain d where
    d: "unique_names ?ms = Inr d" "length d = card (match_name ` set ?ms)" by blast
  have "card (match_name ` set ?ms) \<le> card (set ?ms)" by (rule card_image_le) simp
  also have "\<dots> \<le> length ?ms" by (rule card_length)
  finally have "2 \<le> length ?ms" using assms(4) by simp
  then obtain a b rest where ms: "?ms = a # b # rest"
    by (cases ?ms; cases "tl ?ms") auto
  from d(2) assms(4) obtain x y more where dd: "d = x # y # more"
    by (cases d; cases "tl d") auto
  have r: "resolve_by_name nome_fantasia st = Returns (MultipleNames (length d) nome_fantasia)"
    using inv(1) ms d(1) dd by (simp add: resolve_by_name_def)
  have f: "find_customer cfg post cnpj_cpf nome_fantasia cidade
             = (Returns (MultipleNames (length d) nome_fantasia), pages)"
    using n assms(3) r by (simp add: find_customer_def)
  then show ?thesis using assms(2) d(2)
    by (simp add: encontrar_pedidos_cliente_def)
qed


theorem distinct_names_are_ambiguous_witness:
  "find_customer sample_settings
     (sample_api
        (\<lambda>p. page (JInt 1) [cliente (JStr ''111'') ''ACME'' (JInt 1),
                             cliente (JStr ''222'') ''ACME SUL'' (JInt 2),
                             cliente (JStr ''333'') ''ACME'' (JInt 3)])
        [])
     JNull (JStr ''acme'') JNull
   = (Returns (MultipleNames 2 (JStr ''acme'')), [1])
   \<and> encontrar_pedidos_cliente sample_settings
       (sample_api
          (\<lambda>p. page (JInt 1) [cliente (JStr ''111'') ''ACME'' (JInt 1),
                               cliente (JStr ''222'') ''ACME SUL'' (JInt 2),
                               cliente (JStr ''333'') ''ACME'' (JInt 3)])
          [])
       JNull (JStr ''acme'') JNull
   = Inr (Message (MultipleNames 2 (JStr ''acme'')))"
proof -
  let ?api = "sample_api
        (\<lambda>p. page (JInt 1) [cliente (JStr ''111'') ''ACME'' (JInt 1),
                             cliente (JStr ''222'') ''ACME SUL'' (JInt 2),
                             cliente (JStr ''333'') ''ACME'' (JInt 3)])
        []"
  let ?st = "\<lparr>customer_id = JNull, found_customer_details = JNull,
              possible_matches_by_name =
                [cliente (JStr ''111'') ''ACME'' (JInt 1),
                 cliente (JStr ''222'') ''ACME SUL'' (JInt 2),
                 cliente (JStr ''333'') ''ACME'' (JInt 3)]\<rparr>"
  have scan: "scan_directory (listar_clientes sample_settings ?api JNull (JStr ''acme'') JNull)
                JNull JNull (JStr ''acme'') 1 (JInt 1) no_match = (Continues ?st, [1])"
    by code_simp
  have two: "card (match_name ` set (possible_matches_by_name ?st)) = 2"
    by code_simp
  have h1: "\<not> truthy JNull" and h2: "truthy (JStr ''acme'')" by simp_all
  from two have h4: "2 \<le> card (match_name ` set (possible_matches_by_name ?st))" by simp
  from distinct_names_are_ambiguous[OF h1 h2 scan h4] show ?thesis
    unfolding two by simp
qed

text \<open>
  With only a city, whatever the API answers, the customer search ends in an exception,
  an upstream error or a not-found text: no record is matched, and no orders are
  requested or returned.
\<close>

lemma city_only_never_resolves:
  assumes "\<not> truthy cnpj_cpf" and "\<not> truthy nome_fantasia"
  shows "(\<exists>e. fst (find_customer cfg post cnpj_cpf nome_fantasia cidade) = Raises e)
       \<or> (\<exists>p text. fst (find_customer cfg post cnpj_cpf nome_fantasia cidade)
                      = Returns (ClienteSearchError p text))
       \<or> fst (find_customer cfg post cnpj_cpf nome_fantasia cidade) = Returns NotFoundFirstPage
       \<or> fst (find_customer cfg post cnpj_cpf nome_fantasia cidade) = Returns NotFoundAfterPages"
proof -
  have n: "normalize_input cnpj_cpf = Inr JNull" using assms(1) by (simp add: normalize_input_def)
  obtain r pages where s: "scan_directory (listar_clientes cfg post JNull nome_fantasia cidade)
           cnpj_cpf JNull nome_fantasia 1 (JInt 1) no_match = (r, pages)"
    by (cases "scan_directory (listar_clientes cfg post JNull nome_fantasia cidade)
           cnpj_cpf JNull nome_fantasia 1 (JInt 1) no_match") blast
  note inv = scan_directory_without_cnpj[of JNull no_match
               "listar_clientes cfg post JNull nome_fantasia cidade"
               cnpj_cpf nome_fantasia 1 "JInt 1", unfolded s]
  show ?thesis
  proof (cases r)
    case (Raises e)
    with n s show ?thesis by (simp add: find_customer_def)
  next
    case (Returns m)
    with inv have "(\<exists>p text. m = ClienteSearchError p text) \<or> m = NotFoundFirstPage"
      by (simp add: no_match_def)
    with n s Returns show ?thesis by (auto simp: find_customer_def)
  next
    case (Continues st)
    with inv assms(2) have "customer_id st = JNull" "possible_matches_by_name st = []"
      by (auto simp: no_match_def)
    then have "resolve_by_name nome_fantasia st = Continues st"
      and "require_customer st = Returns NotFoundAfterPages"
      by (simp_all add: resolve_by_name_def require_customer_def)
    with n s Continues show ?thesis by (simp add: find_customer_def)
  qed
qed

lemma city_only_never_returns_orders:
  assumes "\<not> truthy cnpj_cpf" and "\<not> truthy nome_fantasia"
  shows "encontrar_pedidos_cliente cfg post cnpj_cpf nome_fantasia cidade \<noteq> Inr (Orders os)"
  using city_only_never_resolves[OF assms, of cfg post cidade]
  by (auto simp: encontrar_pedidos_cliente_def)

section \<open>The bound of the pagination\<close>

lemma dict_get_dict_set:
  "dict_get (dict_set k v d) k' dflt = (if k' = k then v else dict_get d k' dflt)"
  by (induction d) (auto simp: dict_get_def)

lemma page_body_ignores_total:
  assumes "current_page \<noteq> 1"
    and "\<And>k d. k \<noteq> ''total_de_paginas'' \<Longrightarrow> dict_get resp' k d = dict_get resp k d"
  shows "page_body cnpj_cpf normalized nome_fantasia current_page total_pages st resp'
           = page_body cnpj_cpf normalized nome_fantasia current_page total_pages st resp"
  using assms(1) by (simp add: page_body_def Let_def assms(2))

lemma scan_directory_ignores_later_totals:
  assumes "listar' 1 = listar 1"
    and "\<And>p k d. p \<noteq> 1 \<Longrightarrow> k \<noteq> ''total_de_paginas''
            \<Longrightarrow> dict_get (listar' p) k d = dict_get (listar p) k d"
  shows "scan_directory listar' cnpj_cpf normalized nome_fantasia current_page total_pages st
           = scan_directory listar cnpj_cpf normalized nome_fantasia current_page total_pages st"
  using assms
proof (induction listar cnpj_cpf normalized nome_fantasia current_page total_pages st
       rule: scan_directory.induct)
  case (1 listar cnpj_cpf normalized nome_fantasia current_page total_pages st)
  have pb: "page_body cnpj_cpf normalized nome_fantasia current_page total_pages st
              (listar' current_page)
            = page_body cnpj_cpf normalized nome_fantasia current_page total_pages st
              (listar current_page)"
  proof (cases "current_page = 1")
    case True
    with "1.prems"(1) show ?thesis by simp
  next
    case False
    then show ?thesis using "1.prems"(2) by (intro page_body_ignores_total) auto
  qed
  show ?case
  proof (cases "int_le current_page total_pages")
    case (Inl e)
    then show ?thesis by (simp add: scan_directory.simps[of _ _ _ _ current_page])
  next
    case (Inr b)
    show ?thesis
    proof (cases "b \<and> \<not> truthy (customer_id st)")
      case False
      with Inr show ?thesis
        by (auto simp: scan_directory.simps[of _ _ _ _ current_page])
    next
      case True
      then have bT: "b = True" and c: "\<not> truthy (customer_id st)" by simp_all
      show ?thesis
      proof (cases "page_body cnpj_cpf normalized nome_fantasia current_page total_pages st
                      (listar current_page)")
        case (Stop r)
        with Inr bT c pb show ?thesis
          by (simp add: scan_directory.simps[of _ _ _ _ current_page])
      next
        case (Again tp' st1)
        note IH = "1.IH"[OF Inr bT c Again "1.prems"]
        with Inr bT c pb Again show ?thesis
          by (simp add: scan_directory.simps[of _ _ _ _ current_page])
      qed
    qed
  qed
qed


lemma page_body_keeps_total:
  assumes "page_body cnpj_cpf normalized nome_fantasia current_page total_pages st resp
             = Again tp' st'"
  shows "tp' = (if current_page = 1 then dict_get resp ''total_de_paginas'' (JInt 1)
                else total_pages)"
  using assms
  by (auto simp: page_body_def Let_def split: if_splits flow.splits sum.splits)

lemma scan_directory_pages_from:
  assumes "2 \<le> current_page"
    and "scan_directory listar cnpj_cpf normalized nome_fantasia current_page total_pages st
           = (r, pages)"
  shows "pages = [current_page..current_page + int (length pages) - 1]
       \<and> list_all (\<lambda>p. int_le p total_pages = Inr True) pages
       \<and> (\<forall>st'. r = Continues st' \<and> \<not> truthy (customer_id st')
              \<longrightarrow> int_le (current_page + int (length pages)) total_pages = Inr False)"
  using assms
proof (induction listar cnpj_cpf normalized nome_fantasia current_page total_pages st
       arbitrary: r pages rule: scan_directory.induct)
  case (1 listar cnpj_cpf normalized nome_fantasia current_page total_pages st)
  note run = "1.prems"(2)
  show ?case
  proof (cases "int_le current_page total_pages")
    case (Inl e)
    with run show ?thesis by (auto simp: scan_directory.simps[of _ _ _ _ current_page])
  next
    case (Inr b)
    show ?thesis
    proof (cases b)
      case False
      with Inr run show ?thesis
        by (auto simp: scan_directory.simps[of _ _ _ _ current_page])
    next
      case True
      then have bT: "b = True" by simp
      show ?thesis
      proof (cases "truthy (customer_id st)")
        case True
        with Inr bT run show ?thesis
          by (auto simp: scan_directory.simps[of _ _ _ _ current_page])
      next
        case c: False
        show ?thesis
        proof (cases "page_body cnpj_cpf normalized nome_fantasia current_page total_pages st
                        (listar current_page)")
          case (Stop r')
          with Inr bT c run have rp: "r = r'" "pages = [current_page]"
            by (auto simp: scan_directory.simps[of _ _ _ _ current_page])
          have "r' \<noteq> Continues st' \<or> truthy (customer_id st')" for st'
            using Stop
            by (auto simp: page_body_def Let_def split: if_splits flow.splits sum.splits)
          with rp Inr bT show ?thesis by auto
        next
          case (Again tp' st1)
          from page_body_keeps_total[OF Again] "1.prems"(1) have tp: "tp' = total_pages" by simp
          obtain r1 pages1 where
            rec: "scan_directory listar cnpj_cpf normalized nome_fantasia (current_page + 1)
                    tp' st1 = (r1, pages1)"
            by (cases "scan_directory listar cnpj_cpf normalized nome_fantasia (current_page + 1)
                    tp' st1") blast
          with Inr bT c run Again have rp: "r = r1" "pages = current_page # pages1"
            by (auto simp: scan_directory.simps[of _ _ _ _ current_page])
          from "1.prems"(1) have "2 \<le> current_page + 1" by simp
          from "1.IH"[OF Inr bT c Again this rec]
          have IH: "pages1 = [current_page + 1..current_page + 1 + int (length pages1) - 1]"
            "list_all (\<lambda>p. int_le p total_pages = Inr True) pages1"
            "\<forall>st'. r1 = Continues st' \<and> \<not> truthy (customer_id st')
              \<longrightarrow> int_le (current_page + 1 + int (length pages1)) total_pages = Inr False"
            unfolding tp by blast+
          have "[current_page..current_page + int (length pages) - 1]
                  = current_page # [current_page + 1..current_page + 1 + int (length pages1) - 1]"
            unfolding rp by (subst upto.simps) (simp add: algebra_simps)
          with IH(1) rp have A: "pages = [current_page..current_page + int (length pages) - 1]"
            by simp
          have B: "list_all (\<lambda>p. int_le p total_pages = Inr True) pages"
            using IH(2) Inr bT rp by simp
          have C: "\<forall>st'. r = Continues st' \<and> \<not> truthy (customer_id st')
              \<longrightarrow> int_le (current_page + int (length pages)) total_pages = Inr False"
            using IH(3) rp by (simp add: algebra_simps)
          from A B C show ?thesis by blast
        qed
      qed
    qed
  qed
qed


text \<open>
  C6: the bound of the pagination loop is the \<^verbatim>\<open>total_de_paginas\<close> of the answer to page 1
  (1 when the key is absent). Whatever value the later pages report under that key, the
  scan ends the same way after the same requests. The pages requested are 1, 2, ... in
  order without a gap; every page requested after the first is within the bound; and
  when the loop runs out (it ends normally with no customer found), the next page number
  is the first one beyond the bound.
\<close>

theorem total_pages_read_on_first_page:
  assumes "scan_directory listar cnpj_cpf normalized nome_fantasia 1 (JInt 1) no_match
             = (r, pages)"
  shows "scan_directory
           (\<lambda>p. if p = 1 then listar p
                 else dict_set ''total_de_paginas'' (other p) (listar p))
           cnpj_cpf normalized nome_fantasia 1 (JInt 1) no_match = (r, pages)
       \<and> pages = [1..int (length pages)] \<and> pages \<noteq> []
       \<and> list_all (\<lambda>p. p = 1
                      \<or> int_le p (dict_get (listar 1) ''total_de_paginas'' (JInt 1)) = Inr True)
            pages
       \<and> (\<forall>st'. r = Continues st' \<and> \<not> truthy (customer_id st')
              \<longrightarrow> int_le (1 + int (length pages))
                    (dict_get (listar 1) ''total_de_paginas'' (JInt 1)) = Inr False)"
proof -
  let ?T = "dict_get (listar 1) ''total_de_paginas'' (JInt 1)"
  have same: "scan_directory
           (\<lambda>p. if p = 1 then listar p
                 else dict_set ''total_de_paginas'' (other p) (listar p))
           cnpj_cpf normalized nome_fantasia 1 (JInt 1) no_match = (r, pages)"
    unfolding assms[symmetric]
    by (rule scan_directory_ignores_later_totals) (simp_all add: dict_get_dict_set)
  have first: "int_le 1 (JInt 1) = Inr True" "\<not> truthy (customer_id no_match)"
    by (simp_all add: int_le_def no_match_def)
  have rest: "pages = [1..int (length pages)] \<and> pages \<noteq> []
       \<and> list_all (\<lambda>p. p = 1 \<or> int_le p ?T = Inr True) pages
       \<and> (\<forall>st'. r = Continues st' \<and> \<not> truthy (customer_id st')
              \<longrightarrow> int_le (1 + int (length pages)) ?T = Inr False)"
  proof (cases "page_body cnpj_cpf normalized nome_fantasia 1 (JInt 1) no_match (listar 1)")
    case (Stop r')
    with first assms have rp: "r = r'" "pages = [1]"
      by (auto simp: scan_directory.simps[of _ _ _ _ 1])
    have "r' \<noteq> Continues st' \<or> truthy (customer_id st')" for st'
      using Stop
      by (auto simp: page_body_def Let_def split: if_splits flow.splits sum.splits)
    with rp show ?thesis by auto
  next
    case (Again tp' st1)
    from page_body_keeps_total[OF Again] have tp: "tp' = ?T" by simp
    obtain r1 pages1 where
      rec: "scan_directory listar cnpj_cpf normalized nome_fantasia 2 ?T st1 = (r1, pages1)"
      by (cases "scan_directory listar cnpj_cpf normalized nome_fantasia 2 ?T st1") blast
    with first assms Again tp have rp: "r = r1" "pages = 1 # pages1"
      by (auto simp: scan_directory.simps[of _ _ _ _ 1])
    from scan_directory_pages_from[OF _ rec]
    have L: "pages1 = [2..2 + int (length pages1) - 1]"
      "list_all (\<lambda>p. int_le p ?T = Inr True) pages1"
      "\<forall>st'. r1 = Continues st' \<and> \<not> truthy (customer_id st')
              \<longrightarrow> int_le (2 + int (length pages1)) ?T = Inr False"
      by simp_all
    have "[1..int (length pages)] = 1 # [2..2 + int (length pages1) - 1]"
      unfolding rp by (subst upto.simps) (simp add: algebra_simps)
    with L(1) rp have A: "pages = [1..int (length pages)]" by simp
    have B: "list_all (\<lambda>p. p = 1 \<or> int_le p ?T = Inr True) pages"
      using L(2) rp by (simp add: list_all_iff)
    have C: "\<forall>st'. r = Continues st' \<and> \<not> truthy (customer_id st')
              \<longrightarrow> int_le (1 + int (length pages)) ?T = Inr False"
      using L(3) rp by (simp add: algebra_simps)
    from A B C rp show ?thesis by blast
  qed
  from same rest show ?thesis by blast
qed

theorem total_pages_read_on_first_page_witness:
  "scan_directory (\<lambda>p. if p = 1 then page (JInt 2) [] else page (JInt 7) [])
     JNull JNull (JStr ''acme'') 1 (JInt 1) no_match = (Continues no_match, [1, 2])
   \<and> scan_directory
       (\<lambda>p. if p = 1 then (if p = 1 then page (JInt 2) [] else page (JInt 7) [])
             else dict_set ''total_de_paginas'' (JInt 9)
                    (if p = 1 then page (JInt 2) [] else page (JInt 7) []))
       JNull JNull (JStr ''acme'') 1 (JInt 1) no_match = (Continues no_match, [1, 2])
   \<and> int_le 3 (dict_get (page (JInt 2) []) ''total_de_paginas'' (JInt 1)) = Inr False"
proof -
  have run: "scan_directory (\<lambda>p. if p = 1 then page (JInt 2) [] else page (JInt 7) [])
     JNull JNull (JStr ''acme'') 1 (JInt 1) no_match = (Continues no_match, [1, 2])"
    by code_simp
  have c: "\<not> truthy (customer_id no_match)" by (simp add: no_match_def)
  from total_pages_read_on_first_page[OF run, of "\<lambda>p. JInt 9"] c run
  show ?thesis by simp
qed

section \<open>The search by tax id\<close>

lemma the_strings_chars: "the_strings (map (\<lambda>c. JStr [c]) s) = Some (map (\<lambda>c. [c]) s)"
  by (induction s) auto

lemma only_digits_string: "only_digits (JStr s) = Inr (filter is_digit s)"
proof -
  have "concat (filter isdigit (map (\<lambda>c. [c]) s)) = filter is_digit s"
    by (induction s) (auto simp: isdigit_def)
  then show ?thesis by (simp add: only_digits_def the_strings_chars)
qed

lemma scan_page_miss:
  assumes "d \<noteq> []" "list_all (other_tax_id d) cs"
  shows "scan_page cnpj_cpf (JStr d) nome_fantasia cs st = Continues st"
  using assms
  by (induction cs)
     (auto simp: other_tax_id_def cnpj_digits_def split: json.splits sum.splits)

lemma scan_page_hit:
  assumes "d \<noteq> []" "list_all (other_tax_id d) before"
    and "only_digits (dict_get r ''cnpj_cpf'' (JStr [])) = Inr d"
    and "\<not> truthy (found_customer_details st)"
  shows "scan_page cnpj_cpf (JStr d) nome_fantasia (before @ JObj r # after) st
           = Continues (st\<lparr>found_customer_details := JObj r,
                           customer_id := dict_get r ''codigo_cliente_omie'' JNull\<rparr>)"
  using assms
  by (induction before)
     (auto simp: other_tax_id_def cnpj_digits_def split: json.splits sum.splits)

lemma not_one: "num_val v = Some r \<Longrightarrow> 2 \<le> r \<Longrightarrow> \<not> py_eq v (JInt 1)"
  by (cases v) (auto split: if_splits)

lemma page_body_miss:
  assumes "d \<noteq> []" "page_without_hit d resp" "\<not> truthy (customer_id st)"
    and "num_val tp' = Some t" "current_page = 1 \<longrightarrow> 2 \<le> t"
    and "tp' = (if current_page = 1 then dict_get resp ''total_de_paginas'' (JInt 1)
                else total_pages)"
  shows "page_body cnpj_cpf (JStr d) nome_fantasia current_page total_pages st resp
           = Again tp' st"
proof -
  let ?cad = "dict_get resp ''clientes_cadastro'' JNull"
  have inner: "(if truthy ?cad
                then (case py_iter ?cad of
                        Inl e \<Rightarrow> Raises e
                      | Inr clientes \<Rightarrow> scan_page cnpj_cpf (JStr d) nome_fantasia clientes st)
                else Continues st) = Continues st"
    using assms(1,2) by (cases ?cad) (auto simp: page_without_hit_def scan_page_miss)
  have e: "\<not> truthy (dict_get resp ''error'' JNull)"
    using assms(2) by (simp add: page_without_hit_def)
  have g: "int_gt (current_page + 1) tp' = Inr (t < of_int (current_page + 1))"
    using assms(4) by (simp add: int_gt_def)
  have n1: "current_page = 1 \<Longrightarrow> \<not> py_eq tp' (JInt 1)"
    using assms(4,5) not_one[of tp' t] by auto
  show ?thesis
    unfolding page_body_def Let_def inner assms(6)[symmetric]
    using e g n1 assms(3) by auto
qed

lemma page_body_hit:
  assumes "d \<noteq> []" "\<not> truthy (dict_get resp ''error'' JNull)"
    and "dict_get resp ''clientes_cadastro'' JNull = JList (before @ JObj r # after)"
    and "list_all (other_tax_id d) before"
    and "only_digits (dict_get r ''cnpj_cpf'' (JStr [])) = Inr d"
    and "truthy (dict_get r ''codigo_cliente_omie'' JNull)"
    and "\<not> truthy (found_customer_details st)"
  shows "page_body cnpj_cpf (JStr d) nome_fantasia current_page total_pages st resp
           = Stop (Continues (st\<lparr>found_customer_details := JObj r,
                                 customer_id := dict_get r ''codigo_cliente_omie'' JNull\<rparr>))"
  unfolding page_body_def Let_def assms(3)
  using assms(2,6) scan_page_hit[OF assms(1,4,5,7), of cnpj_cpf nome_fantasia after]
  by simp


lemma scan_directory_until_hit:
  fixes k :: int
  assumes d: "d \<noteq> []"
    and miss: "\<And>q. 1 \<le> q \<Longrightarrow> q < k \<Longrightarrow> page_without_hit d (listar q)"
    and bound: "2 \<le> k \<Longrightarrow> int_le k (dict_get (listar 1) ''total_de_paginas'' (JInt 1)) = Inr True"
    and ok: "\<not> truthy (dict_get (listar k) ''error'' JNull)"
    and cad: "dict_get (listar k) ''clientes_cadastro'' JNull = JList (before @ JObj r # after)"
    and before: "list_all (other_tax_id d) before"
    and r: "only_digits (dict_get r ''cnpj_cpf'' (JStr [])) = Inr d"
    and cid: "truthy (dict_get r ''codigo_cliente_omie'' JNull)"
    and p: "1 \<le> p" "p \<le> k"
    and tp: "tp = (if p = 1 then JInt 1 else dict_get (listar 1) ''total_de_paginas'' (JInt 1))"
  shows "scan_directory listar cnpj_cpf (JStr d) nome_fantasia p tp no_match
           = (Continues \<lparr>customer_id = dict_get r ''codigo_cliente_omie'' JNull,
                          found_customer_details = JObj r,
                          possible_matches_by_name = []\<rparr>, [p..k])"
  using p tp
proof (induction "nat (k - p)" arbitrary: p tp)
  case 0
  then have pk: "p = k" by simp
  let ?T = "dict_get (listar 1) ''total_de_paginas'' (JInt 1)"
  have le: "int_le p tp = Inr True"
  proof (cases "p = 1")
    case True
    with "0.prems" show ?thesis by (simp add: int_le_def)
  next
    case False
    with "0.prems" pk bound show ?thesis by simp
  qed
  have c: "\<not> truthy (customer_id no_match)" "\<not> truthy (found_customer_details no_match)"
    by (simp_all add: no_match_def)
  have "page_body cnpj_cpf (JStr d) nome_fantasia p tp no_match (listar p)
          = Stop (Continues (no_match\<lparr>found_customer_details := JObj r,
                                 customer_id := dict_get r ''codigo_cliente_omie'' JNull\<rparr>))"
    unfolding pk by (rule page_body_hit[OF d ok cad before r cid c(2)])
  with le c(1) show ?case
    by (simp add: scan_directory.simps[of _ _ _ _ p] pk no_match_def)
next
  case (Suc n)
  let ?T = "dict_get (listar 1) ''total_de_paginas'' (JInt 1)"
  from Suc.hyps(2) have lt: "p < k" by simp
  with Suc.prems(1) have k2: "2 \<le> k" by simp
  from bound[OF k2] obtain t where t: "num_val ?T = Some t" "of_int k \<le> t"
    by (auto simp: int_le_def split: option.splits)
  from t(2) k2 have t2: "2 \<le> t"
    by (metis of_int_le_iff of_int_numeral order_trans)
  have le: "int_le p tp = Inr True"
  proof (cases "p = 1")
    case True
    with Suc.prems show ?thesis by (simp add: int_le_def)
  next
    case False
    have "(of_int p :: rat) \<le> of_int k" using lt by simp
    with False Suc.prems t show ?thesis by (simp add: int_le_def)
  qed
  have c: "\<not> truthy (customer_id no_match)" by (simp add: no_match_def)
  have tp': "?T = (if p = 1 then dict_get (listar p) ''total_de_paginas'' (JInt 1) else tp)"
    using Suc.prems(3) by simp
  have pb: "page_body cnpj_cpf (JStr d) nome_fantasia p tp no_match (listar p) = Again ?T no_match"
    by (rule page_body_miss[OF d miss[OF Suc.prems(1) lt] c t(1) _ tp']) (simp add: t2)
  have next_page: "scan_directory listar cnpj_cpf (JStr d) nome_fantasia (p + 1) ?T no_match
           = (Continues \<lparr>customer_id = dict_get r ''codigo_cliente_omie'' JNull,
                          found_customer_details = JObj r,
                          possible_matches_by_name = []\<rparr>, [p + 1..k])"
    using Suc.hyps(2) Suc.prems(1) lt by (intro Suc.hyps(1)) auto
  have "[p..k] = p # [p + 1..k]" using lt by (subst upto.simps) simp
  with le c pb next_page show ?case
    by (simp add: scan_directory.simps[of _ _ _ _ p])
qed


text \<open>
  C4, as stated, fails: the one record whose digits equal the hint's has no
  \<^verbatim>\<open>codigo_cliente_omie\<close>. Line 168 leaves \<^verbatim>\<open>customer_id\<close> at \<^verbatim>\<open>None\<close>, so neither
  \<^verbatim>\<open>break\<close> of lines 118 and 176 is taken, page 2 is requested, and line 204 answers that
  the customer was not found.
\<close>

theorem hit_without_id_counterexample:
  "find_customer sample_settings
     (sample_api
        (\<lambda>p. if p = 1
              then page (JInt 2) [JObj [(''cnpj_cpf'', JStr ''12.345''),
                                        (''nome_fantasia'', JStr ''ACME'')]]
              else page (JInt 2) [cliente (JStr ''999'') ''OUTRA'' (JInt 9)])
        [pedido ''1''])
     (JStr ''12345'') JNull JNull
   = (Returns NotFoundAfterPages, [1, 2])"
  by code_simp

text \<open>
  C4, amended: let the tax id hint hold at least one digit, and let exactly one record
  across all pages have the digits of the hint, on page \<open>k\<close>. If every earlier page is
  without hit (no error object, records that are objects with other digits), \<open>k\<close> is
  within the total of page 1 when \<open>k\<close> is not 1, the records before that record on page
  \<open>k\<close> are objects with other digits, and the record carries a truthy
  \<^verbatim>\<open>codigo_cliente_omie\<close>, then the resolution succeeds with that record, the pages
  requested are exactly 1 to \<open>k\<close>, and the tool goes on to the orders of that customer.
\<close>

theorem first_tax_id_hit_resolves:
  fixes k :: int
  assumes digit: "filter is_digit s \<noteq> []"
    and first_page: "1 \<le> k"
    and earlier: "\<And>q. 1 \<le> q \<Longrightarrow> q < k \<Longrightarrow>
           page_without_hit (filter is_digit s)
             (listar_clientes cfg post (JStr (filter is_digit s)) nome_fantasia cidade q)"
    and bound: "2 \<le> k \<Longrightarrow>
           int_le k (dict_get (listar_clientes cfg post (JStr (filter is_digit s))
                                 nome_fantasia cidade 1)
                       ''total_de_paginas'' (JInt 1)) = Inr True"
    and no_error: "\<not> truthy (dict_get (listar_clientes cfg post (JStr (filter is_digit s))
                               nome_fantasia cidade k) ''error'' JNull)"
    and records: "dict_get (listar_clientes cfg post (JStr (filter is_digit s))
                              nome_fantasia cidade k)
           ''clientes_cadastro'' JNull = JList (before @ JObj r # after)"
    and before: "list_all (other_tax_id (filter is_digit s)) before"
    and hit: "only_digits (dict_get r ''cnpj_cpf'' (JStr [])) = Inr (filter is_digit s)"
    and only_one_on_page: "list_all (\<lambda>c. \<not> has_tax_id (filter is_digit s) c) after"
    and only_one_later: "\<And>q. k < q \<Longrightarrow>
           list_all (\<lambda>c. \<not> has_tax_id (filter is_digit s) c)
             (records_of (listar_clientes cfg post (JStr (filter is_digit s))
                            nome_fantasia cidade q))"
    and with_id: "truthy (dict_get r ''codigo_cliente_omie'' JNull)"
  shows "find_customer cfg post (JStr s) nome_fantasia cidade
           = (Continues \<lparr>customer_id = dict_get r ''codigo_cliente_omie'' JNull,
                          found_customer_details = JObj r,
                          possible_matches_by_name = []\<rparr>, [1..k])
       \<and> encontrar_pedidos_cliente cfg post (JStr s) nome_fantasia cidade
           = pedidos_do_cliente cfg post (dict_get r ''codigo_cliente_omie'' JNull)"
proof -
  let ?d = "filter is_digit s"
  let ?st = "\<lparr>customer_id = dict_get r ''codigo_cliente_omie'' JNull,
              found_customer_details = JObj r, possible_matches_by_name = []\<rparr>"
  from digit have s: "s \<noteq> []" by auto
  then have n: "normalize_input (JStr s) = Inr (JStr ?d)"
    by (simp add: normalize_input_def only_digits_string)
  have scan: "scan_directory (listar_clientes cfg post (JStr ?d) nome_fantasia cidade)
                (JStr s) (JStr ?d) nome_fantasia 1 (JInt 1) no_match = (Continues ?st, [1..k])"
    by (rule scan_directory_until_hit
               [OF digit earlier bound no_error records before hit with_id _ first_page])
       simp_all
  from with_id have "r \<noteq> []" by (auto simp: dict_get_def)
  with with_id have "resolve_by_name nome_fantasia ?st = Continues ?st"
    and "require_customer ?st = Continues ?st"
    by (simp_all add: resolve_by_name_def require_customer_def)
  with n scan have f: "find_customer cfg post (JStr s) nome_fantasia cidade = (Continues ?st, [1..k])"
    by (simp add: find_customer_def)
  then show ?thesis using s by (simp add: encontrar_pedidos_cliente_def)
qed

theorem first_tax_id_hit_resolves_witness:
  "page_without_hit ''12345''
     (listar_clientes sample_settings
        (sample_api
           (\<lambda>p. if p = 1 then page (JInt 3) [cliente (JStr ''111'') ''OUTRA'' (JInt 9)]
                 else if p = 2 then page (JInt 3) [cliente (JStr ''222'') ''MAIS'' (JInt 8),
                                                   cliente (JStr ''12.345'') ''ACME'' (JInt 1),
                                                   cliente (JStr ''444'') ''TRES'' (JInt 7)]
                 else page (JInt 3) [cliente (JStr ''333'') ''FINAL'' (JInt 2)])
           [pedido ''1''])
        (JStr ''12345'') JNull JNull 1)
   \<and> find_customer sample_settings
       (sample_api
          (\<lambda>p. if p = 1 then page (JInt 3) [cliente (JStr ''111'') ''OUTRA'' (JInt 9)]
                else if p = 2 then page (JInt 3) [cliente (JStr ''222'') ''MAIS'' (JInt 8),
                                                  cliente (JStr ''12.345'') ''ACME'' (JInt 1),
                                                  cliente (JStr ''444'') ''TRES'' (JInt 7)]
                else page (JInt 3) [cliente (JStr ''333'') ''FINAL'' (JInt 2)])
          [pedido ''1''])
       (JStr ''123.45'') JNull JNull
     = (Continues \<lparr>customer_id = JInt 1,
                    found_customer_details = cliente (JStr ''12.345'') ''ACME'' (JInt 1),
                    possible_matches_by_name = []\<rparr>, [1, 2])"
proof -
  let ?api = "sample_api
          (\<lambda>p. if p = 1 then page (JInt 3) [cliente (JStr ''111'') ''OUTRA'' (JInt 9)]
                else if p = 2 then page (JInt 3) [cliente (JStr ''222'') ''MAIS'' (JInt 8),
                                                  cliente (JStr ''12.345'') ''ACME'' (JInt 1),
                                                  cliente (JStr ''444'') ''TRES'' (JInt 7)]
                else page (JInt 3) [cliente (JStr ''333'') ''FINAL'' (JInt 2)])
          [pedido ''1'']"
  let ?r = "[(''codigo_cliente_omie'', JInt 1), (''cnpj_cpf'', JStr ''12.345''),
             (''nome_fantasia'', JStr ''ACME'')]"
  have d: "filter is_digit ''123.45'' = ''12345''" by code_simp
  have h1: "filter is_digit ''123.45'' \<noteq> []" by code_simp
  have p1: "page_without_hit ''12345''
              (listar_clientes sample_settings ?api (JStr ''12345'') JNull JNull 1)"
    by code_simp
  have h3: "page_without_hit (filter is_digit ''123.45'')
              (listar_clientes sample_settings ?api (JStr (filter is_digit ''123.45''))
                 JNull JNull q)" if "1 \<le> q" "q < 2" for q :: int
  proof -
    from that have "q = 1" by simp
    then show ?thesis using p1 unfolding d by simp
  qed
  have h4: "int_le 2 (dict_get (listar_clientes sample_settings ?api
                                  (JStr (filter is_digit ''123.45'')) JNull JNull 1)
                        ''total_de_paginas'' (JInt 1)) = Inr True"
    by code_simp
  have h5: "\<not> truthy (dict_get (listar_clientes sample_settings ?api
                                  (JStr (filter is_digit ''123.45'')) JNull JNull 2)
                        ''error'' JNull)"
    by code_simp
  have h6: "dict_get (listar_clientes sample_settings ?api
                        (JStr (filter is_digit ''123.45'')) JNull JNull 2)
              ''clientes_cadastro'' JNull
            = JList ([cliente (JStr ''222'') ''MAIS'' (JInt 8)] @ JObj ?r
                       # [cliente (JStr ''444'') ''TRES'' (JInt 7)])"
    by code_simp
  have h7: "list_all (other_tax_id (filter is_digit ''123.45''))
              [cliente (JStr ''222'') ''MAIS'' (JInt 8)]"
    by code_simp
  have h8: "only_digits (dict_get ?r ''cnpj_cpf'' (JStr [])) = Inr (filter is_digit ''123.45'')"
    by code_simp
  have h9: "list_all (\<lambda>c. \<not> has_tax_id (filter is_digit ''123.45'') c)
              [cliente (JStr ''444'') ''TRES'' (JInt 7)]"
    by code_simp
  have last_page: "list_all (\<lambda>c. \<not> has_tax_id ''12345'' c)
                     (records_of (page (JInt 3) [cliente (JStr ''333'') ''FINAL'' (JInt 2)]))"
    by code_simp
  have h10: "list_all (\<lambda>c. \<not> has_tax_id (filter is_digit ''123.45'') c)
               (records_of (listar_clientes sample_settings ?api
                              (JStr (filter is_digit ''123.45'')) JNull JNull q))"
    if "2 < q" for q :: int
  proof -
    from that have "listar_clientes sample_settings ?api (JStr ''12345'') JNull JNull q
            = page (JInt 3) [cliente (JStr ''333'') ''FINAL'' (JInt 2)]"
      by (simp add: listar_clientes_def call_omie_api_def payload_def sample_api_def
            sample_settings_def listar_clientes_params_def requested_page_def dict_get_def
            raise_for_status_def page_def)
    with last_page show ?thesis unfolding d by simp
  qed
  have h11: "truthy (dict_get ?r ''codigo_cliente_omie'' JNull)" by code_simp
  have u: "[1..2] = [1, 2 :: int]" by code_simp
  from first_tax_id_hit_resolves[OF h1 _ h3 h4 h5 h6 h7 h8 h9 h10 h11] p1
  show ?thesis unfolding u by (simp add: cliente_def dict_get_def)
qed

end
